theory Spec2Isabelle
  imports Complex_Main "HOL-Library.Word"
begin

unbundle bit_operations_syntax

section \<open>Floating-point values\<close>

text \<open>
  The component computes with C++ \<^verbatim>\<open>float\<close> (IEEE-754 binary32) and, for the camera
  matrix, \<^verbatim>\<open>double\<close> (binary64). A value is a real number, the negative zero, an
  infinity or a NaN; \<open>Fin 0\<close> is the positive zero. An operation of the code is the
  exact operation on these values followed by the rounding to the format of its result:
  to the nearest number of the format, a tie to the one with the even significand,
  with gradual underflow and with overflow to an infinity (the default rounding mode;
  the compiler is taken not to contract a product and a sum into one fused operation
  and not to evaluate in a wider format). The payload and the sign of a NaN are not
  modelled.
\<close>

datatype fl = Fin real | NZero | PInf | NInf | NaN

definition is_neg :: "fl \<Rightarrow> bool" where
  "is_neg x =
     (case x of Fin a \<Rightarrow> a < 0 | NZero \<Rightarrow> True | PInf \<Rightarrow> False | NInf \<Rightarrow> True | NaN \<Rightarrow> False)"

definition is_zero :: "fl \<Rightarrow> bool" where
  "is_zero x = (x = Fin 0 \<or> x = NZero)"

definition is_inf :: "fl \<Rightarrow> bool" where
  "is_inf x = (x = PInf \<or> x = NInf)"

text \<open>The real value of a finite number; both zeros have the value \<open>0\<close>.\<close>

fun rv :: "fl \<Rightarrow> real" where
  "rv (Fin a) = a"
| "rv x = 0"

text \<open>The infinity and the zero of the given sign (\<open>True\<close>: negative).\<close>

definition inf_of :: "bool \<Rightarrow> fl" where
  "inf_of neg = (if neg then NInf else PInf)"

definition zero_of :: "bool \<Rightarrow> fl" where
  "zero_of neg = (if neg then NZero else Fin 0)"

text \<open>A number that is neither an infinity nor a NaN.\<close>

definition finite_fl :: "fl \<Rightarrow> bool" where
  "finite_fl x = (case x of Fin r \<Rightarrow> True | NZero \<Rightarrow> True | PInf \<Rightarrow> False | NInf \<Rightarrow> False | NaN \<Rightarrow> False)"

subsection \<open>The exact operations\<close>

text \<open>
  The operations before rounding, with the special cases of IEEE-754: a sum of two
  zeros of different signs and a sum that cancels are \<open>+0\<close>; the sign of a product
  and of a quotient is the exclusive or of the signs of the operands, also when the
  result is a zero or an infinity; a nonzero number divided by a zero is an infinity;
  \<open>0 / 0\<close>, \<open>\<infinity> / \<infinity>\<close>, \<open>0 * \<infinity>\<close> and \<open>\<infinity> - \<infinity>\<close> are NaNs.
\<close>

fun fneg :: "fl \<Rightarrow> fl" where
  "fneg (Fin a) = (if a = 0 then NZero else Fin (- a))"
| "fneg NZero = Fin 0"
| "fneg PInf = NInf"
| "fneg NInf = PInf"
| "fneg NaN = NaN"

definition xadd :: "fl \<Rightarrow> fl \<Rightarrow> fl" where
  "xadd x y =
     (if x = NaN \<or> y = NaN then NaN
      else if is_inf x then (if is_inf y \<and> y \<noteq> x then NaN else x)
      else if is_inf y then y
      else if x = NZero \<and> y = NZero then NZero
      else Fin (rv x + rv y))"

definition xsub :: "fl \<Rightarrow> fl \<Rightarrow> fl" where
  "xsub x y = xadd x (fneg y)"

definition xmul :: "fl \<Rightarrow> fl \<Rightarrow> fl" where
  "xmul x y =
     (if x = NaN \<or> y = NaN then NaN
      else if is_inf x \<or> is_inf y
      then (if is_zero x \<or> is_zero y then NaN else inf_of (is_neg x \<noteq> is_neg y))
      else if rv x * rv y = 0 then zero_of (is_neg x \<noteq> is_neg y)
      else Fin (rv x * rv y))"

definition xdiv :: "fl \<Rightarrow> fl \<Rightarrow> fl" where
  "xdiv x y =
     (if x = NaN \<or> y = NaN then NaN
      else if is_inf x then (if is_inf y then NaN else inf_of (is_neg x \<noteq> is_neg y))
      else if is_inf y then zero_of (is_neg x \<noteq> is_neg y)
      else if is_zero y then (if is_zero x then NaN else inf_of (is_neg x \<noteq> is_neg y))
      else if is_zero x then zero_of (is_neg x \<noteq> is_neg y)
      else Fin (rv x / rv y))"

subsection \<open>Rounding\<close>

text \<open>The nearest integer, a tie to the even one.\<close>

definition rhe :: "real \<Rightarrow> int" where
  "rhe y =
     (let f = \<lfloor>y\<rfloor>; d = y - of_int f
      in if d < 1 / 2 then f else if 1 / 2 < d then f + 1 else if even f then f else f + 1)"

text \<open>
  The rounding to the binary format with \<open>t\<close> fraction bits and the exponents
  \<open>emin\<close> to \<open>emax\<close>. A number \<open>a\<close> with \<open>2^e \<le> \<bar>a\<bar> < 2^(e+1)\<close> is rounded to a multiple of
  \<open>2^(e - t)\<close>, and to a multiple of \<open>2^(emin - t)\<close> when \<open>e < emin\<close> (a subnormal
  number or a zero, which keeps the sign); a result of magnitude \<open>2^(emax+1)\<close> is an
  infinity.
\<close>

fun rnd_to :: "int \<Rightarrow> int \<Rightarrow> int \<Rightarrow> fl \<Rightarrow> fl" where
  "rnd_to t emin emax (Fin a) =
     (if a = 0 then Fin 0
      else
        let u = 2 powi (max emin \<lfloor>log 2 \<bar>a\<bar>\<rfloor> - t);
            m = rhe (a / u)
        in if 2 powi (emax + 1) \<le> \<bar>of_int m * u\<bar> then inf_of (a < 0)
           else if m = 0 then zero_of (a < 0)
           else Fin (of_int m * u))"
| "rnd_to t emin emax x = x"

definition rnd32 :: "fl \<Rightarrow> fl" where
  "rnd32 = rnd_to 23 (- 126) 127"

definition rnd64 :: "fl \<Rightarrow> fl" where
  "rnd64 = rnd_to 52 (- 1022) 1023"

subsection \<open>The operations of the code\<close>

text \<open>The operators \<^verbatim>\<open>+\<close>, \<^verbatim>\<open>-\<close>, \<^verbatim>\<open>*\<close> and \<^verbatim>\<open>/\<close> on two \<^verbatim>\<open>float\<close>s.\<close>

definition fadd :: "fl \<Rightarrow> fl \<Rightarrow> fl" where
  "fadd x y = rnd32 (xadd x y)"

definition fsub :: "fl \<Rightarrow> fl \<Rightarrow> fl" where
  "fsub x y = rnd32 (xsub x y)"

definition fmul :: "fl \<Rightarrow> fl \<Rightarrow> fl" where
  "fmul x y = rnd32 (xmul x y)"

definition fdiv :: "fl \<Rightarrow> fl \<Rightarrow> fl" where
  "fdiv x y = rnd32 (xdiv x y)"

text \<open>The operator \<^verbatim>\<open>/\<close> on two \<^verbatim>\<open>double\<close>s.\<close>

definition ddiv :: "fl \<Rightarrow> fl \<Rightarrow> fl" where
  "ddiv x y = rnd64 (xdiv x y)"

text \<open>
  The comparisons \<^verbatim>\<open><\<close> and \<^verbatim>\<open>>\<close>: false as soon as an operand is a NaN; the two
  zeros are equal.
\<close>

definition flt :: "fl \<Rightarrow> fl \<Rightarrow> bool" where
  "flt x y =
     (if x = NaN \<or> y = NaN then False
      else if x = PInf \<or> y = NInf then False
      else if x = NInf \<or> y = PInf then True
      else rv x < rv y)"

definition fgt :: "fl \<Rightarrow> fl \<Rightarrow> bool" where
  "fgt x y = flt y x"

text \<open>
  \<^verbatim>\<open>FGenericPlatformMath::Pow\<close> is \<^verbatim>\<open>powf\<close>. Its special cases are the ones of
  C (Annex F): \<open>pow (x, \<plusminus>0) = 1\<close> and \<open>pow (1, y) = 1\<close> for every operand, a NaN
  included; a zero base gives an infinity for a negative exponent and a zero for a
  positive one, of the sign of the base when the exponent is an odd integer; an
  infinite exponent depends on whether \<open>\<bar>x\<bar>\<close> is below or above 1; a negative base
  needs an exponent that is an integer. \<open>Pow_x\<close> is the exact power; \<open>Pow_f\<close> rounds
  it to binary32, which is what a correctly rounded \<^verbatim>\<open>powf\<close> returns. (The C library
  may return a neighbour of the correctly rounded value where the power is not a
  binary32 number. The power is a binary32 number, and \<^verbatim>\<open>powf\<close> exact, at the
  exponents \<open>1\<close> and \<open>\<plusminus>\<infinity>\<close> and at the base \<open>1\<close>; the one statement below
  that evaluates another power, a square, says so.)
\<close>

definition is_int :: "real \<Rightarrow> bool" where
  "is_int y = (y = of_int \<lfloor>y\<rfloor>)"

definition is_odd_int :: "real \<Rightarrow> bool" where
  "is_odd_int y = (is_int y \<and> odd \<lfloor>y\<rfloor>)"

definition Pow_x :: "fl \<Rightarrow> fl \<Rightarrow> fl" where
  "Pow_x x y =
     (if is_zero y \<or> x = Fin 1 then Fin 1
      else if x = NaN \<or> y = NaN then NaN
      else if y = PInf
      then (if is_inf x then PInf
            else if \<bar>rv x\<bar> = 1 then Fin 1 else if \<bar>rv x\<bar> < 1 then Fin 0 else PInf)
      else if y = NInf
      then (if is_inf x then Fin 0
            else if \<bar>rv x\<bar> = 1 then Fin 1 else if \<bar>rv x\<bar> < 1 then PInf else Fin 0)
      else if x = PInf then (if rv y < 0 then Fin 0 else PInf)
      else if x = NInf
      then (if rv y < 0 then zero_of (is_odd_int (rv y)) else inf_of (is_odd_int (rv y)))
      else if is_zero x
      then (if rv y < 0 then inf_of (is_neg x \<and> is_odd_int (rv y))
            else zero_of (is_neg x \<and> is_odd_int (rv y)))
      else if 0 < rv x then Fin (rv x powr rv y)
      else if is_int (rv y)
      then Fin ((if odd \<lfloor>rv y\<rfloor> then - 1 else 1) * ((- rv x) powr rv y))
      else NaN)"

definition Pow_f :: "fl \<Rightarrow> fl \<Rightarrow> fl" where
  "Pow_f x y = rnd32 (Pow_x x y)"

text \<open>
  \<^verbatim>\<open>std::round\<close>: to the nearest integer, a half away from zero; the result keeps the
  sign of the operand. The integer is a binary32 number whenever the operand is.
\<close>

definition round_away :: "real \<Rightarrow> int" where
  "round_away a = (if 0 \<le> a then \<lfloor>a + 1 / 2\<rfloor> else - \<lfloor>- a + 1 / 2\<rfloor>)"

fun fround :: "fl \<Rightarrow> fl" where
  "fround (Fin a) = (if a < 0 \<and> round_away a = 0 then NZero else Fin (of_int (round_away a)))"
| "fround x = x"

text \<open>
  The cast \<^verbatim>\<open>(uint8_t) x\<close> of a float truncates towards zero. C++ leaves it undefined
  when the truncated value is not a value of the target type (a NaN and the infinities
  have none): \<open>None\<close>.
\<close>

definition trunc_zero :: "real \<Rightarrow> int" where
  "trunc_zero a = (if 0 \<le> a then \<lfloor>a\<rfloor> else \<lceil>a\<rceil>)"

fun to_uint8 :: "fl \<Rightarrow> 8 word option" where
  "to_uint8 (Fin a) =
     (if 0 \<le> trunc_zero a \<and> trunc_zero a \<le> 255 then Some (word_of_int (trunc_zero a)) else None)"
| "to_uint8 NZero = Some 0"
| "to_uint8 x = None"

text \<open>
  An unsigned integer converted to a floating-point number. Every 8-bit integer is a
  binary32 number and every 32-bit integer a binary64 number; the conversion of a
  32-bit integer to \<^verbatim>\<open>float\<close> rounds.
\<close>

definition of_u8 :: "8 word \<Rightarrow> fl" where
  "of_u8 c = Fin (real (unat c))"

definition of_u32 :: "32 word \<Rightarrow> fl" where
  "of_u32 n = Fin (real (unat n))"

definition f32_of_u32 :: "32 word \<Rightarrow> fl" where
  "f32_of_u32 n = rnd32 (of_u32 n)"

section \<open>The component\<close>

datatype EVisionFormat = Color | LinearColor | Float16Color

text \<open>An \<^verbatim>\<open>FColor\<close>: four bytes.\<close>

record FColor =
  R :: "8 word"
  G :: "8 word"
  B :: "8 word"
  A :: "8 word"

text \<open>
  The fields of \<^verbatim>\<open>UVisionComponent\<close> that the functions below read or write.
  \<^verbatim>\<open>FieldOfView\<close> is inherited from the camera component. The fields of type \<open>fl\<close>
  are \<^verbatim>\<open>float\<close>s.
\<close>

record UVisionComponent =
  Format :: EVisionFormat
  Width :: "32 word"
  Height :: "32 word"
  Framerate :: fl
  UseEngineFramerate :: bool
  GammaCorrection :: fl
  Brightness :: fl
  Contrast :: fl
  FieldOfView :: fl
  FrameTime :: fl
  TimePassed :: fl
  ObjectColors :: "FColor list"
  ObjectToColor :: "string \<rightharpoonup> 32 word"
  ColorsUsed :: "32 word"
  Running :: bool
  Paused :: bool

section \<open>ProcessChannel\<close>

text \<open>
  The tail shared by the three overloads of \<^verbatim>\<open>ProcessChannel\<close>, from the line
  \<^verbatim>\<open>out += Contrast * (out - 128) + 128 + Brightness\<close> on: the contrast and
  brightness adjustment, the clamp and the rounding cast. The right-hand side of
  \<^verbatim>\<open>+=\<close> is evaluated first, from left to right, and then added to \<^verbatim>\<open>out\<close>; each
  of the five operations rounds to binary32.
\<close>

definition adjust :: "UVisionComponent \<Rightarrow> fl \<Rightarrow> fl" where
  "adjust vc out =
     fadd out (fadd (fadd (fmul (Contrast vc) (fsub out (Fin 128))) (Fin 128)) (Brightness vc))"

definition clamp_255 :: "fl \<Rightarrow> fl" where
  "clamp_255 out = (if fgt out (Fin 255) then Fin 255 else if flt out (Fin 0) then Fin 0 else out)"

definition ProcessChannel_uint8 :: "UVisionComponent \<Rightarrow> 8 word \<Rightarrow> 8 word option" where
  "ProcessChannel_uint8 vc channel =
     (let out = fmul (Pow_f (fdiv (of_u8 channel) (Fin 255)) (fdiv (Fin 1) (GammaCorrection vc)))
                  (Fin 255)
      in to_uint8 (fround (clamp_255 (adjust vc out))))"

definition ProcessChannel_float :: "UVisionComponent \<Rightarrow> fl \<Rightarrow> 8 word option" where
  "ProcessChannel_float vc channel =
     (let out = fmul (fmul (Pow_f (fdiv channel (Fin 255)) (fdiv (Fin 1) (GammaCorrection vc)))
                  (Fin 255)) (Fin 255)
      in to_uint8 (fround (clamp_255 (adjust vc out))))"

text \<open>
  The third overload takes an \<^verbatim>\<open>FFloat16\<close>, which the expression \<^verbatim>\<open>channel / 255.f\<close>
  converts to a float with the engine's conversion operator. The operator is not part of
  the repository: it is the parameter \<open>GetFloat\<close>.
\<close>

definition ProcessChannel_FFloat16 ::
  "(16 word \<Rightarrow> fl) \<Rightarrow> UVisionComponent \<Rightarrow> 16 word \<Rightarrow> 8 word option" where
  "ProcessChannel_FFloat16 GetFloat vc channel =
     (let out = fmul (fmul (Pow_f (fdiv (GetFloat channel) (Fin 255))
                  (fdiv (Fin 1) (GammaCorrection vc))) (Fin 255)) (Fin 255)
      in to_uint8 (fround (clamp_255 (adjust vc out))))"

text \<open>
  The transform as the specification words it, for the refinement statements below:
  \<^verbatim>\<open>g = pow(c/255, 1/gamma) * 255\<close>, \<^verbatim>\<open>out = g + contrast*(g-128) + 128 + brightness\<close>,
  \<^verbatim>\<open>clamp(out, 0, 255)\<close>, round to the nearest integer. The clamp tests the lower
  bound first, and the rounding is the mathematical one (\<^const>\<open>round\<close>), which has
  no value at a NaN. The formula is read in two ways: \<open>ChannelProcessor_spec\<close> computes
  it on the real numbers, without any rounding before the last one;
  \<open>ChannelProcessor_spec32\<close> computes it in binary32, the sum from left to right as it
  is written.
\<close>

definition clamp_spec :: "fl \<Rightarrow> fl \<Rightarrow> fl \<Rightarrow> fl" where
  "clamp_spec x lo hi = (if flt x lo then lo else if flt hi x then hi else x)"

fun round_spec :: "fl \<Rightarrow> int option" where
  "round_spec (Fin a) = Some (round a)"
| "round_spec NZero = Some 0"
| "round_spec x = None"

definition ChannelProcessor_spec :: "fl \<Rightarrow> fl \<Rightarrow> fl \<Rightarrow> nat \<Rightarrow> int option" where
  "ChannelProcessor_spec gamma contrast brightness c =
     (let g = xmul (Pow_x (xdiv (Fin (real c)) (Fin 255)) (xdiv (Fin 1) gamma)) (Fin 255);
          out = xadd (xadd (xadd g (xmul contrast (xsub g (Fin 128)))) (Fin 128)) brightness
      in round_spec (clamp_spec out (Fin 0) (Fin 255)))"

definition ChannelProcessor_spec32 :: "fl \<Rightarrow> fl \<Rightarrow> fl \<Rightarrow> nat \<Rightarrow> int option" where
  "ChannelProcessor_spec32 gamma contrast brightness c =
     (let g = fmul (Pow_f (fdiv (Fin (real c)) (Fin 255)) (fdiv (Fin 1) gamma)) (Fin 255);
          out = fadd (fadd (fadd g (fmul contrast (fsub g (Fin 128)))) (Fin 128)) brightness
      in round_spec (clamp_spec out (Fin 0) (Fin 255)))"

text \<open>
  The formula with the sum associated as the code has it, in binary32:
  \<^verbatim>\<open>out = g + ((contrast*(g-128) + 128) + brightness)\<close>.
\<close>

definition ChannelProcessor_amended :: "fl \<Rightarrow> fl \<Rightarrow> fl \<Rightarrow> nat \<Rightarrow> int option" where
  "ChannelProcessor_amended gamma contrast brightness c =
     (let g = fmul (Pow_f (fdiv (Fin (real c)) (Fin 255)) (fdiv (Fin 1) gamma)) (Fin 255);
          out = fadd g (fadd (fadd (fmul contrast (fsub g (Fin 128))) (Fin 128)) brightness)
      in round_spec (clamp_spec out (Fin 0) (Fin 255)))"

section \<open>The constructor\<close>

text \<open>
  The member initialisers of \<^verbatim>\<open>UVisionComponent::UVisionComponent()\<close> and the
  assignment \<^verbatim>\<open>FieldOfView = 90.0\<close> of its body. The two containers start empty.
  The constructor leaves \<^verbatim>\<open>Running\<close> and \<^verbatim>\<open>Paused\<close> uninitialised
  (\<^verbatim>\<open>BeginPlay\<close> sets them); they are taken to be false here.
\<close>

definition default_component :: UVisionComponent where
  "default_component =
     \<lparr>Format = Color, Width = 960, Height = 540, Framerate = Fin 1,
      UseEngineFramerate = False, GammaCorrection = Fin 1, Brightness = Fin 0,
      Contrast = Fin 1, FieldOfView = Fin 90, FrameTime = fdiv (Fin 1) (Fin 1),
      TimePassed = Fin 0, ObjectColors = [], ObjectToColor = Map.empty, ColorsUsed = 0,
      Running = False, Paused = False\<rparr>"

section \<open>convertDepth\<close>

text \<open>
  \<^verbatim>\<open>_mm_cvtph_ps\<close> converts IEEE-754 half-precision codes: bit 15 is the sign, bits
  14 to 10 the exponent (bias 15), bits 9 to 0 the fraction; exponent 0 is a zero or a
  subnormal number, exponent 31 an infinity or a NaN. Every half-precision number is a
  single-precision number, so the conversion is exact.
\<close>

definition decode_half :: "16 word \<Rightarrow> fl" where
  "decode_half h =
     (let s = (if bit h 15 then - 1 else 1 :: real);
          e = unat (drop_bit 10 h AND 0x1F);
          m = unat (h AND 0x3FF)
      in if e = 31 then (if m = 0 then inf_of (bit h 15) else NaN)
         else if e = 0
         then (if m = 0 then zero_of (bit h 15) else Fin (s * (real m / 2 ^ 10) * (1 / 2 ^ 14)))
         else Fin (s * (1 + real m / 2 ^ 10) * (2 ^ e / 2 ^ 15)))"

text \<open>
  A vector of four floats and a vector of eight 16-bit integers, lane 0 first.
  \<^verbatim>\<open>_mm_set_epi16\<close> takes the lanes from the highest to the lowest;
  \<^verbatim>\<open>_mm_cvtph_ps\<close> converts the four low lanes; a vector divided by a scalar is
  divided lane by lane, each quotient rounded to binary32; a store through an
  \<^verbatim>\<open>__m128 *\<close> writes four consecutive floats.
\<close>

type_synonym m128 = "fl \<times> fl \<times> fl \<times> fl"

type_synonym m128i =
  "16 word \<times> 16 word \<times> 16 word \<times> 16 word \<times> 16 word \<times> 16 word \<times> 16 word \<times> 16 word"

definition mm_set_epi16 ::
  "16 word \<Rightarrow> 16 word \<Rightarrow> 16 word \<Rightarrow> 16 word \<Rightarrow> 16 word \<Rightarrow> 16 word \<Rightarrow> 16 word \<Rightarrow> 16 word
     \<Rightarrow> m128i" where
  "mm_set_epi16 e7 e6 e5 e4 e3 e2 e1 e0 = (e0, e1, e2, e3, e4, e5, e6, e7)"

fun mm_cvtph_ps :: "m128i \<Rightarrow> m128" where
  "mm_cvtph_ps (e0, e1, e2, e3, e4, e5, e6, e7) =
     (decode_half e0, decode_half e1, decode_half e2, decode_half e3)"

fun div_ps :: "m128 \<Rightarrow> fl \<Rightarrow> m128" where
  "div_ps (x0, x1, x2, x3) d = (fdiv x0 d, fdiv x1 d, fdiv x2 d, fdiv x3 d)"

fun store_ps :: "fl list \<Rightarrow> nat \<Rightarrow> m128 \<Rightarrow> fl list" where
  "store_ps mem k (x0, x1, x2, x3) = mem[k := x0, k + 1 := x1, k + 2 := x2, k + 3 := x3]"

text \<open>
  The loop of \<^verbatim>\<open>convertDepth\<close>. The pointers \<^verbatim>\<open>in\<close> and \<^verbatim>\<open>out\<close> advance by four
  samples and by one vector in each iteration: in iteration \<open>i\<close> they stand at the
  index \<open>4 * i\<close> of the input array \<open>inp\<close> and of the output array \<open>out\<close> (counted in
  floats). An access outside an array is undefined in C++: \<open>None\<close>.
\<close>

function convertDepth_loop ::
  "nat \<Rightarrow> nat \<Rightarrow> 16 word list \<Rightarrow> fl list \<Rightarrow> fl list option" where
  "convertDepth_loop i sz inp out =
     (if i < sz then
        (if 4 * i + 3 < length inp \<and> 4 * i + 3 < length out then
           convertDepth_loop (i + 1) sz inp
             (store_ps out (4 * i)
               (div_ps (mm_cvtph_ps (mm_set_epi16 0 0 0 0
                  (inp ! (4 * i + 3)) (inp ! (4 * i + 2)) (inp ! (4 * i + 1)) (inp ! (4 * i + 0))))
                (Fin 100)))
         else None)
      else Some out)"
  by pat_completeness auto
termination
  by (relation "measure (\<lambda>(i, sz, inp, out). sz - i)") auto

declare convertDepth_loop.simps [simp del]

text \<open>\<^verbatim>\<open>const size_t size = (Width * Height) / 4\<close>: the product is a 32-bit one.\<close>

definition convertDepth_size :: "UVisionComponent \<Rightarrow> nat" where
  "convertDepth_size vc = unat ((Width vc * Height vc) div 4)"

definition convertDepth ::
  "UVisionComponent \<Rightarrow> 16 word list \<Rightarrow> fl list \<Rightarrow> fl list option" where
  "convertDepth vc inp out = convertDepth_loop 0 (convertDepth_size vc) inp out"

text \<open>
  The conversion of one sample as the specification words it, for the refinement
  statement below: \<^verbatim>\<open>decode_half_float(sample) / 100.0\<close>, a 32-bit float.
\<close>

definition DepthUnitConverter_spec :: "16 word \<Rightarrow> fl" where
  "DepthUnitConverter_spec h = fdiv (decode_half h) (Fin 100)"

section \<open>The CameraInfo message\<close>

text \<open>
  \<^verbatim>\<open>std::tan\<close> on a \<^verbatim>\<open>double\<close>, taken as correctly rounded: the tangent of a zero
  is this zero, the tangent of an infinity is a NaN.
\<close>

fun ftan :: "fl \<Rightarrow> fl" where
  "ftan (Fin a) = rnd64 (Fin (tan a))"
| "ftan NZero = NZero"
| "ftan x = NaN"

text \<open>
  The engine's macro \<^verbatim>\<open>PI\<close> is the \<^verbatim>\<open>float\<close> literal \<^verbatim>\<open>3.1415926535897932f\<close>, the
  binary32 number nearest to \<open>\<pi>\<close>.
\<close>

definition PI :: fl where
  "PI = rnd32 (Fin pi)"

text \<open>
  The fields of \<^verbatim>\<open>sensor_msgs::CameraInfo\<close> that \<^verbatim>\<open>TickComponent\<close> fills from the
  resolution and the field of view: the distortion coefficients \<^verbatim>\<open>D\<close>, the
  intrinsic matrix \<^verbatim>\<open>K\<close>, the rectification matrix \<^verbatim>\<open>R\<close> and the projection
  matrix \<^verbatim>\<open>P\<close>, each as the list of its entries (\<^verbatim>\<open>double\<close>s).
\<close>

record CameraInfo =
  cam_height :: "32 word"
  cam_width :: "32 word"
  cam_D :: "fl list"
  cam_K :: "fl list"
  cam_R :: "fl list"
  cam_P :: "fl list"

text \<open>
  \<^verbatim>\<open>FOVX = Height > Width ? FieldOfView * Width / Height : FieldOfView\<close> and its
  counterpart, in \<^verbatim>\<open>float\<close>; \<^verbatim>\<open>halfFOVX = FOVX * PI / 360.0\<close>, where the product is
  a \<^verbatim>\<open>float\<close> and the quotient a \<^verbatim>\<open>double\<close>.
\<close>

definition FOVX :: "UVisionComponent \<Rightarrow> fl" where
  "FOVX vc =
     (if Height vc > Width vc
      then fdiv (fmul (FieldOfView vc) (f32_of_u32 (Width vc))) (f32_of_u32 (Height vc))
      else FieldOfView vc)"

definition FOVY :: "UVisionComponent \<Rightarrow> fl" where
  "FOVY vc =
     (if Width vc > Height vc
      then fdiv (fmul (FieldOfView vc) (f32_of_u32 (Height vc))) (f32_of_u32 (Width vc))
      else FieldOfView vc)"

definition half_angle :: "fl \<Rightarrow> fl" where
  "half_angle fov = ddiv (fmul fov PI) (Fin 360)"

text \<open>
  The message built from the two half angles: the constants \<^verbatim>\<open>cX\<close> to \<^verbatim>\<open>P10\<close>
  (\<^verbatim>\<open>double\<close>s) and the assignments to \<^verbatim>\<open>CamInfo\<close>.
\<close>

definition fill_CameraInfo :: "UVisionComponent \<Rightarrow> fl \<Rightarrow> fl \<Rightarrow> CameraInfo" where
  "fill_CameraInfo vc halfFOVX halfFOVY =
     (let cX = ddiv (of_u32 (Width vc)) (Fin 2);
          cY = ddiv (of_u32 (Height vc)) (Fin 2);
          K0 = ddiv cX (ftan halfFOVX);
          K2 = cX;
          K4 = K0;
          K5 = cY;
          K8 = Fin 1;
          P0 = K0;
          P2 = K2;
          P5 = K4;
          P6 = K5;
          P10 = Fin 1
      in \<lparr>cam_height = Height vc, cam_width = Width vc,
          cam_D = [Fin 0, Fin 0, Fin 0, Fin 0, Fin 0],
          cam_K = [K0, Fin 0, K2, Fin 0, K4, K5, Fin 0, Fin 0, K8],
          cam_R = [Fin 1, Fin 0, Fin 0, Fin 0, Fin 1, Fin 0, Fin 0, Fin 0, Fin 1],
          cam_P = [P0, Fin 0, P2, Fin 0, Fin 0, P5, P6, Fin 0, Fin 0, Fin 0, P10, Fin 0]\<rparr>)"

definition TickComponent_CameraInfo :: "UVisionComponent \<Rightarrow> CameraInfo" where
  "TickComponent_CameraInfo vc =
     fill_CameraInfo vc (half_angle (FOVX vc)) (half_angle (FOVY vc))"

section \<open>The framerate gate of TickComponent\<close>






section \<open>GenerateColors\<close>

text \<open>\<^verbatim>\<open>std::max\<close> on floats: \<^verbatim>\<open>(a < b) ? b : a\<close>.\<close>

definition fmax :: "fl \<Rightarrow> fl \<Rightarrow> fl" where
  "fmax a b = (if flt a b then b else a)"

text \<open>
  The loop that computes how many saturations and values are needed. The counts are
  \<^verbatim>\<open>uint32_t\<close>, \<^verbatim>\<open>left\<close> is an \<^verbatim>\<open>int32_t\<close>: each difference is computed on 32 bits
  and read as a two's-complement number. The loop has no bound in the source; a loop
  that runs forever is the value \<open>None\<close>.
\<close>

partial_function (option) GenerateColors_counts ::
  "32 word \<Rightarrow> 32 word \<Rightarrow> 32 word \<Rightarrow> 32 word \<Rightarrow> int \<Rightarrow> (32 word \<times> 32 word) option" where
  "GenerateColors_counts NumberOfColors HueCount SatCount ValCount left =
     (if left > 0 then
        (let (ValCount1, left1) =
               (if left > 0
                then (ValCount + 1, sint (NumberOfColors - SatCount * (ValCount + 1) * HueCount))
                else (ValCount, left));
             (SatCount1, left2) =
               (if left1 > 0
                then (SatCount + 1, sint (NumberOfColors - (SatCount + 1) * ValCount1 * HueCount))
                else (SatCount, left1))
         in GenerateColors_counts NumberOfColors HueCount SatCount1 ValCount1 left2)
      else Some (SatCount, ValCount))"

text \<open>
  The constants of \<^verbatim>\<open>GenerateColors\<close>. \<^verbatim>\<open>const float MinSat = 0.65\<close> converts the
  \<^verbatim>\<open>double\<close> literal to a \<^verbatim>\<open>float\<close>.
\<close>

definition MaxHue :: "32 word" where "MaxHue = 50"
definition ShiftHue :: "32 word" where "ShiftHue = 21"
definition MinSat :: fl where "MinSat = rnd32 (rnd64 (Fin (65 / 100)))"
definition MinVal :: fl where "MinVal = rnd32 (rnd64 (Fin (65 / 100)))"

text \<open>
  The three nested loops, which append one colour for every saturation step \<open>s\<close>,
  value step \<open>v\<close> and hue bucket \<open>h\<close>, in this order. The engine's conversion
  \<^verbatim>\<open>HSVColor.HSVToLinearRGB().ToFColor(false)\<close> is the parameter \<open>ToFColor\<close>, applied to
  the hue, the saturation and the value. The counters are \<^verbatim>\<open>uint32_t\<close>s, converted to
  \<^verbatim>\<open>float\<close> where they meet one.
\<close>

definition palette :: "(fl \<Rightarrow> fl \<Rightarrow> fl \<Rightarrow> FColor) \<Rightarrow> 32 word \<Rightarrow> 32 word \<Rightarrow> 32 word \<Rightarrow> FColor list" where
  "palette ToFColor HueCount SatCount ValCount =
     (let StepHue = fdiv (Fin 360) (f32_of_u32 HueCount);
          StepSat = fdiv (fsub (Fin 1) MinSat) (fmax (Fin 1) (fsub (f32_of_u32 SatCount) (Fin 1)));
          StepVal = fdiv (fsub (Fin 1) MinVal) (fmax (Fin 1) (fsub (f32_of_u32 ValCount) (Fin 1)))
      in concat (map (\<lambda>s.
           concat (map (\<lambda>v.
             map (\<lambda>h. ToFColor
                    (fmul (f32_of_u32 ((of_nat h * ShiftHue) mod MaxHue)) StepHue)
                    (fsub (Fin 1) (fmul (f32_of_u32 (of_nat s)) StepSat))
                    (fsub (Fin 1) (fmul (f32_of_u32 (of_nat v)) StepVal)))
               [0 ..< unat HueCount])
             [0 ..< unat ValCount]))
           [0 ..< unat SatCount]))"

text \<open>
  \<^verbatim>\<open>GenerateColors\<close> does not empty \<^verbatim>\<open>ObjectColors\<close>: the new colours are added
  after the ones of earlier calls.
\<close>

definition GenerateColors ::
  "(fl \<Rightarrow> fl \<Rightarrow> fl \<Rightarrow> FColor) \<Rightarrow> 32 word \<Rightarrow> UVisionComponent \<Rightarrow> UVisionComponent option" where
  "GenerateColors ToFColor NumberOfColors vc =
     (let HueCount = MaxHue;
          SatCount = 1;
          ValCount = 1;
          left = max 0 (sint (NumberOfColors - HueCount))
      in case GenerateColors_counts NumberOfColors HueCount SatCount ValCount left of
           None \<Rightarrow> None
         | Some (SatCount, ValCount) \<Rightarrow>
             Some (vc\<lparr>ObjectColors := ObjectColors vc @ palette ToFColor HueCount SatCount ValCount\<rparr>))"

section \<open>ColorAllObjects\<close>

text \<open>
  A failed \<^verbatim>\<open>check\<close>, and the failed range check of an array or map access, end the
  program: the error \<open>CheckFailed\<close>.
\<close>

datatype error = CheckFailed

text \<open>
  \<^verbatim>\<open>ColorObject\<close> reads \<^verbatim>\<open>ObjectColors[ObjectToColor[name]]\<close> and paints every mesh
  of the actor with this colour. The model returns the colour.
\<close>

definition ColorObject :: "UVisionComponent \<Rightarrow> string \<Rightarrow> error + FColor" where
  "ColorObject vc name =
     (case ObjectToColor vc name of
        None \<Rightarrow> Inl CheckFailed
      | Some k \<Rightarrow>
          if unat k < length (ObjectColors vc) then Inr (ObjectColors vc ! unat k)
          else Inl CheckFailed)"

text \<open>
  The second loop of \<^verbatim>\<open>ColorAllObjects\<close> over the actors of the world, given by
  their names in the order of the iterator; \<open>painted\<close> collects the actors painted
  and their colours.
\<close>

fun ColorAllObjects_loop ::
  "string list \<Rightarrow> UVisionComponent \<Rightarrow> (string \<times> FColor) list
     \<Rightarrow> error + UVisionComponent \<times> (string \<times> FColor) list" where
  "ColorAllObjects_loop [] vc painted = Inr (vc, painted)"
| "ColorAllObjects_loop (ActorName # rest) vc painted =
     (case (if ActorName \<notin> dom (ObjectToColor vc)
            then (if ColorsUsed vc < of_nat (length (ObjectColors vc))
                  then Inr (vc\<lparr>ObjectToColor := (ObjectToColor vc)(ActorName \<mapsto> ColorsUsed vc),
                               ColorsUsed := ColorsUsed vc + 1\<rparr>)
                  else Inl CheckFailed)
            else Inr vc) of
        Inl e \<Rightarrow> Inl e
      | Inr vc1 \<Rightarrow>
          (case ColorObject vc1 ActorName of
             Inl e \<Rightarrow> Inl e
           | Inr c \<Rightarrow> ColorAllObjects_loop rest vc1 (painted @ [(ActorName, c)])))"

text \<open>The first loop counts the actors in a \<^verbatim>\<open>uint32_t\<close>.\<close>

definition ColorAllObjects ::
  "(fl \<Rightarrow> fl \<Rightarrow> fl \<Rightarrow> FColor) \<Rightarrow> string list \<Rightarrow> UVisionComponent
     \<Rightarrow> (error + UVisionComponent \<times> (string \<times> FColor) list) option" where
  "ColorAllObjects ToFColor actors vc =
     (let NumberOfActors = (of_nat (length actors) :: 32 word)
      in case GenerateColors ToFColor (NumberOfActors * 2) vc of
           None \<Rightarrow> None
         | Some vc1 \<Rightarrow> Some (ColorAllObjects_loop actors vc1 []))"

text \<open>
  Successive recolouring passes, one for each given world, each on the component that
  the pass before has left. A failed check ends the run.
\<close>

fun recolor_passes ::
  "(fl \<Rightarrow> fl \<Rightarrow> fl \<Rightarrow> FColor) \<Rightarrow> string list list \<Rightarrow> UVisionComponent
     \<Rightarrow> (error + UVisionComponent) option" where
  "recolor_passes ToFColor [] vc = Some (Inr vc)"
| "recolor_passes ToFColor (actors # worlds) vc =
     (case ColorAllObjects ToFColor actors vc of
        None \<Rightarrow> None
      | Some (Inl e) \<Rightarrow> Some (Inl e)
      | Some (Inr (vc1, painted)) \<Rightarrow> recolor_passes ToFColor worlds vc1)"

section \<open>Properties of the floating-point operations\<close>

lemma xadd_Fin [simp]: "xadd (Fin a) (Fin b) = Fin (a + b)"
  by (simp add: xadd_def is_inf_def)

lemma xsub_Fin [simp]: "xsub (Fin a) (Fin b) = Fin (a - b)"
  by (simp add: xsub_def xadd_def is_inf_def)

lemma xmul_Fin:
  "xmul (Fin a) (Fin b) = (if a * b = 0 then zero_of ((a < 0) \<noteq> (b < 0)) else Fin (a * b))"
  by (simp add: xmul_def is_inf_def is_neg_def)

lemma xmul_Fin_nonneg [simp]: "0 \<le> a \<Longrightarrow> 0 \<le> b \<Longrightarrow> xmul (Fin a) (Fin b) = Fin (a * b)"
  by (auto simp add: xmul_Fin zero_of_def)

lemma xmul_Fin_nonzero [simp]: "a \<noteq> 0 \<Longrightarrow> b \<noteq> 0 \<Longrightarrow> xmul (Fin a) (Fin b) = Fin (a * b)"
  by (auto simp add: xmul_Fin zero_of_def)

lemma xdiv_Fin:
  "b \<noteq> 0 \<Longrightarrow> xdiv (Fin a) (Fin b) = (if a = 0 then zero_of (b < 0) else Fin (a / b))"
  by (auto simp add: xdiv_def is_inf_def is_neg_def is_zero_def)

lemma xdiv_Fin_nonneg [simp]: "0 \<le> a \<Longrightarrow> 0 < b \<Longrightarrow> xdiv (Fin a) (Fin b) = Fin (a / b)"
  by (auto simp add: xdiv_Fin zero_of_def)

lemma xdiv_Fin_nonzero [simp]: "a \<noteq> 0 \<Longrightarrow> b \<noteq> 0 \<Longrightarrow> xdiv (Fin a) (Fin b) = Fin (a / b)"
  by (auto simp add: xdiv_Fin zero_of_def)

text \<open>Rounding to an integer.\<close>

lemma rhe_of_int [simp]: "rhe (of_int k) = k"
  by (simp add: rhe_def)

lemma rhe_near: "\<bar>of_int (rhe y) - y\<bar> \<le> 1 / 2"
  unfolding rhe_def Let_def by (auto; linarith)


lemma rhe_eqI: "\<bar>y - of_int m\<bar> < 1 / 2 \<Longrightarrow> rhe y = m"
proof -
  assume a: "\<bar>y - of_int m\<bar> < 1 / 2"
  have n: "\<bar>of_int (rhe y) - y\<bar> \<le> 1 / 2" by (rule rhe_near)
  have "\<bar>real_of_int (rhe y) - real_of_int m\<bar> < 1" using a n by linarith
  then have "\<bar>real_of_int (rhe y - m)\<bar> < 1" by simp
  then have "\<bar>rhe y - m\<bar> < 1" by linarith
  then show ?thesis by simp
qed

lemma rhe_tie_down: "y = of_int m + 1 / 2 \<Longrightarrow> even m \<Longrightarrow> rhe y = m"
proof -
  assume a: "y = of_int m + 1 / 2" and e: "even m"
  have "\<lfloor>y\<rfloor> = m" using a by linarith
  then show ?thesis using a e by (simp add: rhe_def Let_def)
qed

lemma rhe_tie_up: "y = of_int m - 1 / 2 \<Longrightarrow> even m \<Longrightarrow> rhe y = m"
proof -
  assume a: "y = of_int m - 1 / 2" and e: "even m"
  have f: "\<lfloor>y\<rfloor> = m - 1" using a by linarith
  have "odd (m - 1)" using e by simp
  then show ?thesis using a f by (simp add: rhe_def Let_def)
qed

text \<open>The binary exponent of a nonzero number.\<close>

lemma floor_log2_eq:
  assumes "2 powi e \<le> \<bar>a\<bar>" "\<bar>a\<bar> < 2 powi (e + 1)"
  shows "\<lfloor>log 2 \<bar>a\<bar>\<rfloor> = e"
proof -
  have pos: "0 < \<bar>a\<bar>" using assms(1) zero_less_power_int[of "2::real" e] by linarith
  have p1: "(2::real) powr real_of_int e = 2 powi e"
    using powr_real_of_int'[of "2::real" e] by simp
  have p2: "(2::real) powr real_of_int (e + 1) = 2 powi (e + 1)"
    using powr_real_of_int'[of "2::real" "e + 1"] by simp
  show ?thesis
    using assms(1,2) floor_log_eq_powr_iff[of "\<bar>a\<bar>" 2 e] pos p1 p2 by simp
qed

lemma floor_log2_bounds:
  assumes "a \<noteq> 0"
  shows "2 powi \<lfloor>log 2 \<bar>a\<bar>\<rfloor> \<le> \<bar>a\<bar> \<and> \<bar>a\<bar> < 2 powi (\<lfloor>log 2 \<bar>a\<bar>\<rfloor> + 1)"
proof -
  define e where "e = \<lfloor>log 2 \<bar>a\<bar>\<rfloor>"
  have pos: "0 < \<bar>a\<bar>" using assms by simp
  have p1: "(2::real) powr real_of_int e = 2 powi e"
    using powr_real_of_int'[of "2::real" e] by simp
  have p2: "(2::real) powr real_of_int (e + 1) = 2 powi (e + 1)"
    using powr_real_of_int'[of "2::real" "e + 1"] by simp
  have "2 powr real_of_int e \<le> \<bar>a\<bar> \<and> \<bar>a\<bar> < 2 powr real_of_int (e + 1)"
    using floor_log_eq_powr_iff[of "\<bar>a\<bar>" 2 e] pos e_def by simp
  then show ?thesis using p1 p2 e_def by simp
qed

text \<open>Rounding to binary32: the special values, and a number of the normal range.\<close>

lemma rnd32_simps [simp]:
  "rnd32 (Fin 0) = Fin 0" "rnd32 NZero = NZero" "rnd32 PInf = PInf" "rnd32 NInf = NInf"
  "rnd32 NaN = NaN"
  by (simp_all add: rnd32_def)

lemma rnd32_normal:
  assumes lo: "2 powi e \<le> \<bar>a\<bar>" and hi: "\<bar>a\<bar> < 2 powi (e + 1)"
    and e1: "- 126 \<le> e" and e2: "e \<le> 126"
  shows "rnd32 (Fin a) = Fin (of_int (rhe (a / 2 powi (e - 23))) * 2 powi (e - 23))"
    and "\<bar>of_int (rhe (a / 2 powi (e - 23))) * 2 powi (e - 23) - a\<bar> \<le> 2 powi e / 2 ^ 24"
proof -
  define u :: real where "u = 2 powi (e - 23)"
  define m where "m = rhe (a / u)"
  have upos: "0 < u" by (simp add: u_def zero_less_power_int)
  have fl: "\<lfloor>log 2 \<bar>a\<bar>\<rfloor> = e" using floor_log2_eq[OF lo hi] .
  have pe: "0 < (2::real) powi e" by (simp add: zero_less_power_int)
  have a0: "a \<noteq> 0"
  proof
    assume "a = 0"
    then have "(2::real) powi e \<le> 0" using lo by simp
    then show False using pe by linarith
  qed
  have ue: "u * 2 ^ 23 = 2 powi e"
    using power_int_add[of "2::real" "e - 23" 23] by (simp add: u_def)
  have ue1: "u * 2 ^ 24 = 2 powi (e + 1)"
    using power_int_add[of "2::real" "e - 23" 24] by (simp add: u_def add.commute)
  have near: "\<bar>of_int m - a / u\<bar> \<le> 1 / 2" using rhe_near[of "a / u"] by (simp add: m_def)
  have eq: "(of_int m - a / u) * u = of_int m * u - a"
    using upos by (simp add: left_diff_distrib)
  have "\<bar>of_int m * u - a\<bar> = \<bar>(of_int m - a / u) * u\<bar>" by (simp only: eq)
  also have "\<dots> = \<bar>of_int m - a / u\<bar> * u" using upos by (simp add: abs_mult)
  also have "\<dots> \<le> (1 / 2) * u" using near upos by (intro mult_right_mono) auto
  finally have err: "\<bar>of_int m * u - a\<bar> \<le> u / 2" by simp
  have big: "\<bar>of_int m * u\<bar> < 2 powi 128"
  proof -
    have "\<bar>of_int m * u\<bar> \<le> \<bar>a\<bar> + u / 2" using err by linarith
    also have "\<dots> < 2 powi (e + 1) + u / 2" using hi by simp
    also have "\<dots> \<le> 2 * 2 powi (e + 1)" using ue1 upos by simp
    also have "\<dots> = 2 powi (e + 2)"
      using power_int_add[of "2::real" "e + 1" 1] by (simp add: add.commute)
    also have "\<dots> \<le> 2 powi 128" using e2 by (intro power_int_increasing) auto
    finally show ?thesis .
  qed
  have mnz: "m \<noteq> 0"
  proof
    assume "m = 0"
    then have "\<bar>a\<bar> \<le> u / 2" using err by simp
    moreover have "u * 2 ^ 23 \<le> \<bar>a\<bar>" using lo ue by simp
    ultimately show False using upos by simp
  qed
  show "rnd32 (Fin a) = Fin (of_int (rhe (a / 2 powi (e - 23))) * 2 powi (e - 23))"
    using a0 fl e1 big mnz
    by (simp add: rnd32_def Let_def u_def m_def max_def)
  have "u / 2 = 2 powi e / 2 ^ 24" using ue by simp
  then show "\<bar>of_int (rhe (a / 2 powi (e - 23))) * 2 powi (e - 23) - a\<bar> \<le> 2 powi e / 2 ^ 24"
    using err by (simp add: u_def m_def)
qed

text \<open>The rule that evaluates a rounding, given the exponent and the significand.\<close>

lemma rnd32_eval:
  assumes "2 powi e \<le> \<bar>a\<bar>" "\<bar>a\<bar> < 2 powi (e + 1)" "- 126 \<le> e" "e \<le> 126"
    and "\<bar>a / 2 powi (e - 23) - of_int m\<bar> < 1 / 2"
    and "r = of_int m * 2 powi (e - 23)"
  shows "rnd32 (Fin a) = Fin r"
  using rnd32_normal(1)[OF assms(1-4)] rhe_eqI[OF assms(5)] assms(6) by simp

lemma rnd32_eval_tie:
  assumes "2 powi e \<le> \<bar>a\<bar>" "\<bar>a\<bar> < 2 powi (e + 1)" "- 126 \<le> e" "e \<le> 126"
    and "\<bar>a / 2 powi (e - 23) - of_int m\<bar> = 1 / 2" "even m"
    and "r = of_int m * 2 powi (e - 23)"
  shows "rnd32 (Fin a) = Fin r"
proof -
  have "rhe (a / 2 powi (e - 23)) = m"
  proof (cases "a / 2 powi (e - 23) \<le> of_int m")
    case True
    with assms(5) have "a / 2 powi (e - 23) = of_int m - 1 / 2" by linarith
    then show ?thesis using assms(6) by (rule rhe_tie_up)
  next
    case False
    with assms(5) have "a / 2 powi (e - 23) = of_int m + 1 / 2" by linarith
    then show ?thesis using assms(6) by (rule rhe_tie_down)
  qed
  then show ?thesis using rnd32_normal(1)[OF assms(1-4)] assms(7) by simp
qed

text \<open>
  The relative error of a rounding in the normal range is at most \<open>2^-24\<close>, and the
  result is finite.
\<close>

lemma rnd32_rel:
  assumes "2 powi (- 126) \<le> \<bar>a\<bar>" "\<bar>a\<bar> < 2 powi 127"
  obtains r where "rnd32 (Fin a) = Fin r" "\<bar>r - a\<bar> \<le> \<bar>a\<bar> / 2 ^ 24"
proof -
  define e where "e = \<lfloor>log 2 \<bar>a\<bar>\<rfloor>"
  have p: "0 < (2::real) powi (- 126)" by (simp add: zero_less_power_int)
  have a0: "a \<noteq> 0" using assms(1) p by auto
  from floor_log2_bounds[OF a0]
  have b: "2 powi e \<le> \<bar>a\<bar>" "\<bar>a\<bar> < 2 powi (e + 1)" by (simp_all add: e_def)
  have e1: "- 126 \<le> e"
  proof (rule ccontr)
    assume "\<not> - 126 \<le> e"
    then have "e + 1 \<le> - 126" by simp
    then have "(2::real) powi (e + 1) \<le> 2 powi (- 126)" by (intro power_int_increasing) auto
    with b(2) assms(1) show False by linarith
  qed
  have e2: "e \<le> 126"
  proof (rule ccontr)
    assume "\<not> e \<le> 126"
    then have "127 \<le> e" by simp
    then have "(2::real) powi 127 \<le> 2 powi e" by (intro power_int_increasing) auto
    with b(1) assms(2) show False by linarith
  qed
  from rnd32_normal[OF b e1 e2]
  have r1: "rnd32 (Fin a) = Fin (of_int (rhe (a / 2 powi (e - 23))) * 2 powi (e - 23))"
    and r2: "\<bar>of_int (rhe (a / 2 powi (e - 23))) * 2 powi (e - 23) - a\<bar> \<le> 2 powi e / 2 ^ 24"
    by simp_all
  have "2 powi e / 2 ^ 24 \<le> \<bar>a\<bar> / 2 ^ 24" using b(1) by (simp add: divide_right_mono)
  with r2 have "\<bar>of_int (rhe (a / 2 powi (e - 23))) * 2 powi (e - 23) - a\<bar> \<le> \<bar>a\<bar> / 2 ^ 24"
    by linarith
  with r1 show ?thesis using that by blast
qed

lemma rnd32_Fin:
  "a \<noteq> 0 \<Longrightarrow> rnd32 (Fin a) =
     (if 2 powi 128 \<le> \<bar>real_of_int (rhe (a / 2 powi (max (- 126) \<lfloor>log 2 \<bar>a\<bar>\<rfloor> - 23)))
            * 2 powi (max (- 126) \<lfloor>log 2 \<bar>a\<bar>\<rfloor> - 23)\<bar>
      then inf_of (a < 0)
      else if rhe (a / 2 powi (max (- 126) \<lfloor>log 2 \<bar>a\<bar>\<rfloor> - 23)) = 0 then zero_of (a < 0)
      else Fin (of_int (rhe (a / 2 powi (max (- 126) \<lfloor>log 2 \<bar>a\<bar>\<rfloor> - 23)))
            * 2 powi (max (- 126) \<lfloor>log 2 \<bar>a\<bar>\<rfloor> - 23)))"
  by (simp add: rnd32_def Let_def)


text \<open>The rounding of a number below \<open>2^127\<close> in magnitude is finite.\<close>

lemma rnd32_finite:
  assumes "\<bar>a\<bar> < 2 powi 127"
  shows "finite_fl (rnd32 (Fin a))"
proof (cases "a = 0")
  case True
  then show ?thesis by (simp add: finite_fl_def)
next
  case False
  define e where "e = max (- 126) \<lfloor>log 2 \<bar>a\<bar>\<rfloor>"
  define u :: real where "u = 2 powi (e - 23)"
  define m where "m = rhe (a / u)"
  have upos: "0 < u" by (simp add: u_def zero_less_power_int)
  from floor_log2_bounds[OF False]
  have b: "2 powi \<lfloor>log 2 \<bar>a\<bar>\<rfloor> \<le> \<bar>a\<bar>" by simp
  have "\<lfloor>log 2 \<bar>a\<bar>\<rfloor> \<le> 126"
  proof (rule ccontr)
    assume "\<not> \<lfloor>log 2 \<bar>a\<bar>\<rfloor> \<le> 126"
    then have "127 \<le> \<lfloor>log 2 \<bar>a\<bar>\<rfloor>" by simp
    then have "(2::real) powi 127 \<le> 2 powi \<lfloor>log 2 \<bar>a\<bar>\<rfloor>" by (intro power_int_increasing) auto
    with b assms show False by linarith
  qed
  then have e2: "e - 23 \<le> 127" by (simp add: e_def)
  have ule: "u \<le> 2 powi 127" unfolding u_def using e2 by (intro power_int_increasing) auto
  have near: "\<bar>of_int m - a / u\<bar> \<le> 1 / 2" using rhe_near[of "a / u"] by (simp add: m_def)
  have eq: "(of_int m - a / u) * u = of_int m * u - a"
    using upos by (simp add: left_diff_distrib)
  have "\<bar>of_int m * u - a\<bar> = \<bar>(of_int m - a / u) * u\<bar>" by (simp only: eq)
  also have "\<dots> = \<bar>of_int m - a / u\<bar> * u" using upos by (simp add: abs_mult)
  also have "\<dots> \<le> (1 / 2) * u" using near upos by (intro mult_right_mono) auto
  finally have err: "\<bar>of_int m * u - a\<bar> \<le> u / 2" by simp
  have "\<bar>of_int m * u\<bar> \<le> \<bar>a\<bar> + u / 2" using err by linarith
  also have "\<dots> < 2 powi 127 + 2 powi 127" using assms ule upos by linarith
  also have "\<dots> = 2 powi 128"
    using power_int_add[of "2::real" 127 1] by simp
  finally have big: "\<not> 2 powi 128 \<le> \<bar>of_int m * u\<bar>" by simp
  show ?thesis
    unfolding rnd32_Fin[OF False] e_def[symmetric] u_def[symmetric] m_def[symmetric]
    using big by (simp add: finite_fl_def zero_of_def)
qed

section \<open>Properties of ProcessChannel\<close>

lemma rnd32_1: "rnd32 (Fin 1) = Fin 1"
  by (rule rnd32_eval[where e = 0 and m = 8388608]) simp_all

lemma rnd32_128: "rnd32 (Fin 128) = Fin 128"
  by (rule rnd32_eval[where e = 7 and m = 8388608]) simp_all

lemma rnd32_255: "rnd32 (Fin 255) = Fin 255"
  by (rule rnd32_eval[where e = 7 and m = 16711680]) simp_all

lemma Pow_x_1: "0 < x \<Longrightarrow> Pow_x (Fin x) (Fin 1) = Fin x"
  by (auto simp add: Pow_x_def is_zero_def is_inf_def)

lemma to_uint8_Fin_of_int:
  "0 \<le> k \<Longrightarrow> k \<le> 255 \<Longrightarrow> to_uint8 (Fin (of_int k)) = Some (word_of_int k)"
  by (simp add: trunc_zero_def)

lemma clamp_255_Fin: "clamp_255 (Fin a) = Fin (min 255 (max 0 a))"
  by (simp add: clamp_255_def fgt_def flt_def min_def max_def)

text \<open>
  The clamp of the code followed by \<^verbatim>\<open>std::round\<close> and the cast gives the byte whose
  value is the rounded clamp of the specification, and neither has a value at a NaN.
\<close>

lemma round_away_bounds:
  assumes "0 \<le> a" "a \<le> 255"
  shows "0 \<le> round_away a" "round_away a \<le> 255" "round_away a = round a"
  using assms unfolding round_away_def round_def by (simp; linarith)+

lemma clamp_round_agree:
  "map_option uint (to_uint8 (fround (clamp_255 out))) =
   round_spec (clamp_spec out (Fin 0) (Fin 255))"
proof (cases out)
  case (Fin a)
  let ?m = "min 255 (max 0 a)"
  have m: "0 \<le> ?m" "?m \<le> 255" by simp_all
  note r = round_away_bounds[OF m]
  have "clamp_spec out (Fin 0) (Fin 255) = Fin ?m"
    using Fin by (simp add: clamp_spec_def flt_def min_def max_def)
  moreover have "uint (word_of_int (round ?m) :: 8 word) = round ?m"
    using r by (simp add: uint_word_of_int)
  moreover have "fround (Fin ?m) = Fin (of_int (round ?m))"
    using m(1) r(3) by (simp only: fround.simps not_less[symmetric] simp_thms if_False)
  moreover have "to_uint8 (Fin (of_int (round ?m))) = Some (word_of_int (round ?m))"
    using r by (intro to_uint8_Fin_of_int) simp_all
  ultimately show ?thesis
    using Fin by (simp only: clamp_255_Fin round_spec.simps option.map)
qed (simp_all add: clamp_255_def clamp_spec_def fgt_def flt_def round_away_def trunc_zero_def)

text \<open>
  C2, as the code has it. For every 8-bit channel value \<open>c\<close> and parameters with a
  nonzero gamma, the byte that \<^verbatim>\<open>ProcessChannel(c)\<close> returns is the rounded clamp to
  \<open>[0, 255]\<close> of \<open>g + ((contrast * (g - 128) + 128) + brightness)\<close>, where
  \<open>g = pow (c / 255, 1 / gamma) * 255\<close> and every operation is a binary32 operation: the
  adjustment is summed first and then added to \<open>g\<close>. Where the formula has no value (a
  NaN) the cast of the code is undefined.
\<close>

theorem ProcessChannel_uint8_amended:
  assumes "\<not> is_zero (GammaCorrection vc)"
  shows "map_option uint (ProcessChannel_uint8 vc c) =
         ChannelProcessor_amended (GammaCorrection vc) (Contrast vc) (Brightness vc) (unat c)"
  by (simp add: ProcessChannel_uint8_def ChannelProcessor_amended_def Let_def of_u8_def
        clamp_round_agree adjust_def)

text \<open>
  At gamma \<open>1\<close>, contrast \<open>0.1f = 13421773 / 2^27\<close>, brightness \<open>0\<close> and \<open>c = 3\<close>:
  \<open>g = 3\<close>, the product \<open>0.1f * (-125)\<close> rounds to \<open>-12.5\<close>, the sum is \<open>118.5\<close>, and the
  byte is \<open>119\<close>.
\<close>

theorem ProcessChannel_uint8_amended_witness:
  "\<not> is_zero (GammaCorrection (default_component
      \<lparr>GammaCorrection := Fin 1, Contrast := Fin (13421773 / 134217728), Brightness := Fin 0\<rparr>))
   \<and> ChannelProcessor_amended (Fin 1) (Fin (13421773 / 134217728)) (Fin 0) 3 = Some 119
   \<and> ProcessChannel_uint8 (default_component
      \<lparr>GammaCorrection := Fin 1, Contrast := Fin (13421773 / 134217728), Brightness := Fin 0\<rparr>) 3
     = Some 119"
proof -
  let ?vc = "default_component
      \<lparr>GammaCorrection := Fin 1, Contrast := Fin (13421773 / 134217728), Brightness := Fin 0\<rparr>"
  have w1: "fdiv (Fin 1) (Fin 1) = Fin 1"
    by (simp add: fdiv_def, rule rnd32_eval[where e = "0" and m = 8388608], simp_all)
  have w2: "fdiv (Fin 3) (Fin 255) = Fin (12632257 / 1073741824)"
    by (simp add: fdiv_def, rule rnd32_eval[where e = "- 7" and m = 12632257], simp_all)
  have w3: "rnd32 (Fin (12632257 / 1073741824)) = Fin (12632257 / 1073741824)"
    by (rule rnd32_eval[where e = "- 7" and m = 12632257], simp_all)
  have w4: "fmul (Fin (12632257 / 1073741824)) (Fin 255) = Fin 3"
    by (simp add: fmul_def, rule rnd32_eval[where e = "1" and m = 12582912], simp_all)
  have w5: "fsub (Fin 3) (Fin 128) = Fin (- 125)"
    by (simp add: fsub_def, rule rnd32_eval[where e = "6" and m = "- 16384000"], simp_all)
  have w6: "fmul (Fin (13421773 / 134217728)) (Fin (- 125)) = Fin (- (25 / 2))"
    by (simp add: fmul_def, rule rnd32_eval[where e = "3" and m = "- 13107200"], simp_all)
  have w7: "fadd (Fin (- (25 / 2))) (Fin 128) = Fin (231 / 2)"
    by (simp add: fadd_def, rule rnd32_eval[where e = "6" and m = 15138816], simp_all)
  have w8: "fadd (Fin (231 / 2)) (Fin 0) = Fin (231 / 2)"
    by (simp add: fadd_def, rule rnd32_eval[where e = "6" and m = 15138816], simp_all)
  have w9: "fadd (Fin 3) (Fin (231 / 2)) = Fin (237 / 2)"
    by (simp add: fadd_def, rule rnd32_eval[where e = "6" and m = 15532032], simp_all)
  have h: "\<not> is_zero (GammaCorrection ?vc)" by (simp add: is_zero_def)
  have p: "Pow_f (Fin (12632257 / 1073741824)) (Fin 1) = Fin (12632257 / 1073741824)"
    by (simp add: Pow_f_def Pow_x_1 w3)
  have e: "ProcessChannel_uint8 ?vc 3 = Some 119"
    by (simp add: ProcessChannel_uint8_def of_u8_def adjust_def p w1 w2 w4 w5 w6 w7 w8 w9
          clamp_255_def fgt_def flt_def round_away_def trunc_zero_def)
  have "ChannelProcessor_amended (Fin 1) (Fin (13421773 / 134217728)) (Fin 0) 3 = Some 119"
    using ProcessChannel_uint8_amended[OF h, of 3] e by simp
  with h e show ?thesis by blast
qed

text \<open>
  C2 as stated fails at gamma \<open>1\<close>, contrast \<open>0.6700337f = 2810325 / 2^22\<close>, brightness
  \<open>8.361943f = 8768133 / 2^20\<close> and \<open>c = 70\<close>. The code adds \<open>70\<close> to the adjustment
  \<open>12779519 / 2^17\<close>; the sum rounds to \<open>167.5\<close> and the byte is \<open>168\<close>. The formula of
  the specification gives \<open>167\<close>, on the real numbers (the sum is
  \<open>167.49998...\<close>) and in binary32 from left to right (\<open>10977279 / 2^16\<close>).
\<close>

theorem ProcessChannel_uint8_formula_counterexample:
  "ProcessChannel_uint8 (default_component
      \<lparr>GammaCorrection := Fin 1, Contrast := Fin (2810325 / 4194304),
       Brightness := Fin (8768133 / 1048576)\<rparr>) 70 = Some 168
   \<and> ChannelProcessor_spec (Fin 1) (Fin (2810325 / 4194304)) (Fin (8768133 / 1048576)) 70
       = Some 167
   \<and> ChannelProcessor_spec32 (Fin 1) (Fin (2810325 / 4194304)) (Fin (8768133 / 1048576)) 70
       = Some 167"
proof -
  have a1: "fdiv (Fin 1) (Fin 1) = Fin 1"
    by (simp add: fdiv_def, rule rnd32_eval[where e = "0" and m = 8388608], simp_all)
  have a2: "fdiv (Fin 70) (Fin 255) = Fin (9211021 / 33554432)"
    by (simp add: fdiv_def, rule rnd32_eval[where e = "- 2" and m = 9211021], simp_all)
  have a3: "rnd32 (Fin (9211021 / 33554432)) = Fin (9211021 / 33554432)"
    by (rule rnd32_eval[where e = "- 2" and m = 9211021], simp_all)
  have a4: "fmul (Fin (9211021 / 33554432)) (Fin 255) = Fin 70"
    by (simp add: fmul_def, rule rnd32_eval[where e = "6" and m = 9175040], simp_all)
  have a5: "fsub (Fin 70) (Fin 128) = Fin (- 58)"
    by (simp add: fsub_def, rule rnd32_eval[where e = "5" and m = "- 15204352"], simp_all)
  have a6: "fmul (Fin (2810325 / 4194304)) (Fin (- 58)) = Fin (- (2546857 / 65536))"
    by (simp add: fmul_def, rule rnd32_eval[where e = "5" and m = "- 10187428"], simp_all)
  have a7: "fadd (Fin (- (2546857 / 65536))) (Fin 128) = Fin (5841751 / 65536)"
    by (simp add: fadd_def, rule rnd32_eval[where e = "6" and m = 11683502], simp_all)
  have a8: "fadd (Fin (5841751 / 65536)) (Fin (8768133 / 1048576)) = Fin (12779519 / 131072)"
    by (simp add: fadd_def, rule rnd32_eval[where e = "6" and m = 12779519], simp_all)
  have a9: "fadd (Fin 70) (Fin (12779519 / 131072)) = Fin (335 / 2)"
    by (simp add: fadd_def, rule rnd32_eval_tie[where e = "7" and m = 10977280], simp_all)
  have b1: "fsub (Fin 70) (Fin 128) = Fin (- 58)"
    by (simp add: fsub_def, rule rnd32_eval[where e = "5" and m = "- 15204352"], simp_all)
  have b2: "fmul (Fin (2810325 / 4194304)) (Fin (- 58)) = Fin (- (2546857 / 65536))"
    by (simp add: fmul_def, rule rnd32_eval[where e = "5" and m = "- 10187428"], simp_all)
  have b3: "fadd (Fin 70) (Fin (- (2546857 / 65536))) = Fin (2040663 / 65536)"
    by (simp add: fadd_def, rule rnd32_eval[where e = "4" and m = 16325304], simp_all)
  have b4: "fadd (Fin (2040663 / 65536)) (Fin 128) = Fin (10429271 / 65536)"
    by (simp add: fadd_def, rule rnd32_eval[where e = "7" and m = 10429271], simp_all)
  have b5: "fadd (Fin (10429271 / 65536)) (Fin (8768133 / 1048576)) = Fin (10977279 / 65536)"
    by (simp add: fadd_def, rule rnd32_eval[where e = "7" and m = 10977279], simp_all)
  have p: "Pow_f (Fin (9211021 / 33554432)) (Fin 1) = Fin (9211021 / 33554432)"
    by (simp add: Pow_f_def Pow_x_1 a3)
  have code: "ProcessChannel_uint8 (default_component
      \<lparr>GammaCorrection := Fin 1, Contrast := Fin (2810325 / 4194304),
       Brightness := Fin (8768133 / 1048576)\<rparr>) 70 = Some 168"
    by (simp add: ProcessChannel_uint8_def of_u8_def adjust_def p a1 a2 a4 a5 a6 a7 a8 a9
          clamp_255_def fgt_def flt_def round_away_def trunc_zero_def)
  have exact: "ChannelProcessor_spec (Fin 1) (Fin (2810325 / 4194304))
        (Fin (8768133 / 1048576)) 70 = Some 167"
    by (simp add: ChannelProcessor_spec_def Pow_x_1 clamp_spec_def flt_def round_def)
  have ltr: "ChannelProcessor_spec32 (Fin 1) (Fin (2810325 / 4194304))
        (Fin (8768133 / 1048576)) 70 = Some 167"
    by (simp add: ChannelProcessor_spec32_def p a1 a2 a4 b1 b2 b3 b4 b5
          clamp_spec_def flt_def round_def)
  show ?thesis using code exact ltr by blast
qed

text \<open>
  The gamma stage at gamma \<open>1\<close>: three roundings, each with a relative error of at
  most \<open>2^-24\<close>, so the result is within \<open>1/1000\<close> of the channel value; it is
  \<open>0\<close> at the channel value \<open>0\<close>.
\<close>

lemma gamma_1_stage:
  fixes n :: nat
  assumes "n \<le> 255"
  shows "\<exists>g. fmul (Pow_f (fdiv (Fin (real n)) (Fin 255)) (fdiv (Fin 1) (Fin 1))) (Fin 255) = Fin g
             \<and> \<bar>g - real n\<bar> \<le> 1 / 1000 \<and> (n = 0 \<longrightarrow> g = 0)"
proof (cases "n = 0")
  case True
  then show ?thesis
    by (simp add: fdiv_def fmul_def Pow_f_def Pow_x_def rnd32_1 is_zero_def is_inf_def
          zero_of_def is_neg_def)
next
  case False
  then have n1: "1 \<le> real n" by simp
  have n2: "real n \<le> 255" using assms by simp
  have one: "fdiv (Fin 1) (Fin 1) = Fin 1" by (simp add: fdiv_def rnd32_1)
  have lo: "(2::real) powi (- 126) \<le> 1 / 1000" by simp
  have hi: "(1000::real) < 2 powi 127" by simp
  have a1: "2 powi (- 126) \<le> \<bar>real n / 255\<bar>" "\<bar>real n / 255\<bar> < 2 powi 127"
    using n1 n2 lo hi by (simp_all add: abs_if, (linarith+)?)
  from rnd32_rel[OF a1] obtain x where
    x: "rnd32 (Fin (real n / 255)) = Fin x" "\<bar>x - real n / 255\<bar> \<le> \<bar>real n / 255\<bar> / 2 ^ 24"
    by blast
  have xb: "1 / 256 \<le> x" "x \<le> 2" "\<bar>x - real n / 255\<bar> \<le> 1 / 2 ^ 24"
    using x(2) n1 n2 by (simp_all add: abs_if split: if_splits, (linarith+)?)
  have a2: "2 powi (- 126) \<le> \<bar>x\<bar>" "\<bar>x\<bar> < 2 powi 127"
    using xb lo hi by (simp_all add: abs_if, (linarith+)?)
  from rnd32_rel[OF a2] obtain p where
    p: "rnd32 (Fin x) = Fin p" "\<bar>p - x\<bar> \<le> \<bar>x\<bar> / 2 ^ 24"
    by blast
  have pb: "1 / 512 \<le> p" "p \<le> 3" "\<bar>p - x\<bar> \<le> 2 / 2 ^ 24"
    using p(2) xb by (simp_all add: abs_if split: if_splits, (linarith+)?)
  have a3: "2 powi (- 126) \<le> \<bar>p * 255\<bar>" "\<bar>p * 255\<bar> < 2 powi 127"
    using pb lo hi by (simp_all add: abs_if, (linarith+)?)
  from rnd32_rel[OF a3] obtain g where
    g: "rnd32 (Fin (p * 255)) = Fin g" "\<bar>g - p * 255\<bar> \<le> \<bar>p * 255\<bar> / 2 ^ 24"
    by blast
  have gb: "\<bar>g - p * 255\<bar> \<le> 765 / 2 ^ 24"
    using g(2) pb by (simp_all add: abs_if split: if_splits, (linarith+)?)
  have "\<bar>g - real n\<bar> \<le> 1 / 1000" using gb pb(3) xb(3) by (simp add: abs_if split: if_splits, (linarith+)?)
  moreover have "Pow_f (Fin x) (Fin 1) = Fin p"
    using xb(1) p(1) by (simp add: Pow_f_def Pow_x_1)
  moreover have "fdiv (Fin (real n)) (Fin 255) = Fin x"
    using x(1) by (simp add: fdiv_def)
  moreover have "fmul (Fin p) (Fin 255) = Fin g"
    using g(1) pb(1) by (simp add: fmul_def)
  ultimately show ?thesis using False one by simp
qed

text \<open>
  With the contrast \<open>0\<close> the product \<open>Contrast * (out - 128)\<close> is a zero, the sum with
  \<open>128\<close> is exact, and so is the sum with a brightness of \<open>0\<close> or \<open>-128\<close>: the
  adjustment adds \<open>128\<close> or \<open>0\<close> to \<open>out\<close>, with one rounding.
\<close>

lemma adjust_contrast_0:
  assumes "Contrast vc = Fin 0" "Brightness vc = Fin b" "b = 0 \<or> b = - 128" "\<bar>g\<bar> \<le> 1000"
  shows "adjust vc (Fin g) = rnd32 (Fin (g + (128 + b)))"
proof -
  have "\<bar>g - 128\<bar> < 2 powi 127" using assms(4) by simp
  then have "finite_fl (rnd32 (Fin (g - 128)))" by (rule rnd32_finite)
  then have "is_zero (fmul (Fin 0) (fsub (Fin g) (Fin 128)))"
    by (auto simp add: finite_fl_def fmul_def fsub_def xmul_def is_inf_def is_zero_def zero_of_def split: fl.splits)
  then have "fadd (fmul (Fin 0) (fsub (Fin g) (Fin 128))) (Fin 128) = Fin 128"
    by (auto simp add: is_zero_def fadd_def xadd_def is_inf_def rnd32_128)
  moreover have "fadd (Fin 128) (Fin b) = Fin (128 + b)"
    using assms(3) by (auto simp add: fadd_def rnd32_128)
  ultimately show ?thesis using assms(1,2) by (simp add: adjust_def fadd_def)
qed

text \<open>
  A value within \<open>1/4\<close> of an integer \<open>T \<ge> 0\<close> is clamped, rounded and cast to the byte
  \<open>min 255 T\<close>.
\<close>

lemma byte_of_near:
  assumes "\<bar>r - of_int T\<bar> \<le> 1 / 4" "0 \<le> T"
  shows "to_uint8 (fround (clamp_255 (Fin r))) = Some (word_of_int (min 255 T))"
proof -
  define r' where "r' = min 255 (max 0 r)"
  have r0: "0 \<le> r'" by (simp add: r'_def)
  have "round_away r' = min 255 T"
  proof (cases "T \<le> 255")
    case True
    then have "real_of_int T \<le> 255" by linarith
    moreover have "0 \<le> real_of_int T" using assms(2) by simp
    ultimately have "\<bar>r' - of_int T\<bar> \<le> 1 / 4"
      using assms(1) unfolding r'_def by (simp add: min_def max_def abs_if split: if_splits)
    then have "\<lfloor>r' + 1 / 2\<rfloor> = T" by linarith
    then show ?thesis using r0 True by (simp add: round_away_def)
  next
    case False
    then have "256 \<le> real_of_int T" by linarith
    then have "r' = 255" using assms(1) unfolding r'_def by (simp add: min_def max_def abs_if split: if_splits)
    then show ?thesis using False by (simp add: round_away_def)
  qed
  moreover have "0 \<le> min 255 T" "min 255 T \<le> 255" using assms(2) by simp_all
  ultimately have "fround (clamp_255 (Fin r)) = Fin (of_int (min 255 T))"
    "to_uint8 (Fin (of_int (min 255 T))) = Some (word_of_int (min 255 T))"
    using r0 by (simp_all only: clamp_255_Fin r'_def[symmetric] to_uint8_Fin_of_int fround.simps
         not_less[symmetric] simp_thms if_False)
  then show ?thesis by (simp only:)
qed

lemma ProcessChannel_uint8_gamma_1:
  assumes "GammaCorrection vc = Fin 1" "Contrast vc = Fin 0" "Brightness vc = Fin (of_int b)"
    "b = 0 \<or> b = - 128"
  shows "ProcessChannel_uint8 vc c = Some (word_of_int (min 255 (int (unat c) + 128 + b)))"
proof -
  have n: "unat c \<le> 255" using unsigned_less[of c, where 'a=nat] by simp
  from gamma_1_stage[OF n] obtain g where
    gg: "fmul (Pow_f (fdiv (Fin (real (unat c))) (Fin 255)) (fdiv (Fin 1) (Fin 1))) (Fin 255) = Fin g
      \<and> \<bar>g - real (unat c)\<bar> \<le> 1 / 1000 \<and> (unat c = 0 \<longrightarrow> g = 0)" ..
  note g = conjunct1[OF gg] conjunct1[OF conjunct2[OF gg]] conjunct2[OF conjunct2[OF gg]]
  have rn: "real (unat c) \<le> 255" "0 \<le> real (unat c)" using n by (simp_all del: of_nat_unat)
  have gb: "\<bar>g\<bar> \<le> 1000" using g(2) rn by linarith
  have b': "real_of_int b = 0 \<or> real_of_int b = - 128" using assms(4) by auto
  have adj: "adjust vc (Fin g) = rnd32 (Fin (g + (128 + of_int b)))"
    using adjust_contrast_0[OF assms(2,3) b' gb] .
  define T where "T = int (unat c) + 128 + b"
  have T0: "0 \<le> T" using assms(4) unfolding T_def by auto
  have rT: "real_of_int T = real (unat c) + 128 + of_int b" unfolding T_def by (simp del: of_nat_unat)
  have "\<exists>r. rnd32 (Fin (g + (128 + of_int b))) = Fin r \<and> \<bar>r - of_int T\<bar> \<le> 1 / 4"
  proof (cases "g + (128 + of_int b) = 0")
    case True
    then have "\<bar>0 - real_of_int T\<bar> \<le> 1 / 4" using g(2) rT by linarith
    then show ?thesis using True by simp
  next
    case False
    have ge: "unat c \<noteq> 0 \<Longrightarrow> 1 \<le> real (unat c)" by (simp del: of_nat_unat)
    have "1 / 2 \<le> g + (128 + of_int b)"
    proof (cases "unat c = 0")
      case True
      then have "g = 0" using g(3) by simp
      then show ?thesis using False b' by auto
    next
      case F: False
      then show ?thesis using ge[OF F] g(2) b' by linarith
    qed
    moreover have "g + (128 + of_int b) \<le> 500" using g(2) rn b' by linarith
    ultimately have
      "2 powi (- 126) \<le> \<bar>g + (128 + of_int b)\<bar>" "\<bar>g + (128 + of_int b)\<bar> < 2 powi 127"
      by (simp_all add: abs_if, (linarith+)?)
    from rnd32_rel[OF this] obtain r where
      r: "rnd32 (Fin (g + (128 + of_int b))) = Fin r"
         "\<bar>r - (g + (128 + of_int b))\<bar> \<le> \<bar>g + (128 + of_int b)\<bar> / 2 ^ 24"
      by blast
    have "\<bar>r - (g + (128 + of_int b))\<bar> \<le> 500 / 2 ^ 24"
      using r(2) \<open>1 / 2 \<le> g + (128 + of_int b)\<close> \<open>g + (128 + of_int b) \<le> 500\<close>
      by (simp add: abs_if split: if_splits, (linarith+)?)
    then have "\<bar>r - of_int T\<bar> \<le> 1 / 4" using g(2) rT by (simp add: abs_if split: if_splits, (linarith+)?)
    with r(1) show ?thesis by blast
  qed
  then obtain r where r: "rnd32 (Fin (g + (128 + of_int b))) = Fin r" "\<bar>r - of_int T\<bar> \<le> 1 / 4"
    by blast
  have "ProcessChannel_uint8 vc c = to_uint8 (fround (clamp_255 (Fin r)))"
    using g(1) adj r(1) assms(1) by (simp add: ProcessChannel_uint8_def of_u8_def del: of_nat_unat)
  then show ?thesis using byte_of_near[OF r(2) T0] by (simp add: T_def)
qed

text \<open>
  C3, as the code has it. With gamma \<open>1\<close>, contrast \<open>0\<close> and brightness \<open>0\<close> the
  transform adds the constant \<open>128\<close> of the formula and saturates: the byte is
  \<open>min 255 (c + 128)\<close>. It is the identity with gamma \<open>1\<close>, contrast \<open>0\<close> and
  brightness \<open>-128\<close>.
\<close>

theorem ProcessChannel_uint8_neutral:
  "map_option unat (ProcessChannel_uint8
      (vc\<lparr>GammaCorrection := Fin 1, Contrast := Fin 0, Brightness := Fin 0\<rparr>) c)
     = Some (min 255 (unat c + 128))
   \<and> ProcessChannel_uint8
      (vc\<lparr>GammaCorrection := Fin 1, Contrast := Fin 0, Brightness := Fin (- 128)\<rparr>) c
     = Some c"
proof
  have "uint (word_of_int (min 255 (int (unat c) + 128)) :: 8 word) =
        min 255 (int (unat c) + 128)"
    by (simp add: uint_word_of_int del: of_nat_unat)
  then have "unat (word_of_int (min 255 (int (unat c) + 128)) :: 8 word) =
        min 255 (unat c + 128)"
    unfolding unat_eq_nat_uint by (simp add: min_def del: of_nat_unat) linarith
  then show "map_option unat (ProcessChannel_uint8
      (vc\<lparr>GammaCorrection := Fin 1, Contrast := Fin 0, Brightness := Fin 0\<rparr>) c)
     = Some (min 255 (unat c + 128))"
    using ProcessChannel_uint8_gamma_1
      [of "vc\<lparr>GammaCorrection := Fin 1, Contrast := Fin 0, Brightness := Fin 0\<rparr>" 0 c]
    by simp
  have "uint c \<le> 255" using uint_lt2p[of c] by simp
  then have "min 255 (int (unat c) + 128 + (- 128)) = int (unat c)" by simp
  then show "ProcessChannel_uint8
      (vc\<lparr>GammaCorrection := Fin 1, Contrast := Fin 0, Brightness := Fin (- 128)\<rparr>) c
     = Some c"
    using ProcessChannel_uint8_gamma_1
      [of "vc\<lparr>GammaCorrection := Fin 1, Contrast := Fin 0, Brightness := Fin (- 128)\<rparr>"
        "- 128" c]
    by simp
qed

text \<open>
  C3 as stated fails at \<open>c = 0\<close>: \<open>pow (0, 1) * 255 = 0\<close>, the adjustment adds
  \<open>0 * (0 - 128) + 128 + 0\<close>, and the byte is \<open>128\<close>.
\<close>

theorem ProcessChannel_uint8_neutral_counterexample:
  "ProcessChannel_uint8
      (default_component\<lparr>GammaCorrection := Fin 1, Contrast := Fin 0, Brightness := Fin 0\<rparr>) 0
     = Some 128
   \<and> ProcessChannel_uint8
      (default_component\<lparr>GammaCorrection := Fin 1, Contrast := Fin 0, Brightness := Fin 0\<rparr>) 0
     \<noteq> Some 0"
  using ProcessChannel_uint8_gamma_1
      [of "default_component\<lparr>GammaCorrection := Fin 1, Contrast := Fin 0, Brightness := Fin 0\<rparr>"
        0 0]
  by simp

text \<open>
  The one power that the statements of this section evaluate at an exponent other than \<open>1\<close>
  or \<open>\<plusminus>\<infinity>\<close> is the square of \<open>1.0f / 255 = 8421505 / 2^31\<close>. It lies \<open>0.01\<close> units in
  the last place from the float \<open>8454531 / 2^39\<close>, so every \<^verbatim>\<open>powf\<close> with an error
  below \<open>0.49\<close> units returns this float.
\<close>

lemma Pow_square_margin:
  "\<bar>(8421505 / 2147483648 :: real) ^ 2 / 2 powi (- 39) - 8454531\<bar> < 1 / 100"
  by (simp add: power_divide)

text \<open>
  The half-float overload is the float overload on the converted value.
\<close>

lemma ProcessChannel_FFloat16_float:
  "ProcessChannel_FFloat16 GetFloat vc h = ProcessChannel_float vc (GetFloat h)"
  by (simp add: ProcessChannel_FFloat16_def ProcessChannel_float_def)

text \<open>
  C4 fails on the code. With gamma \<open>1/2\<close> (contrast \<open>1\<close> and brightness \<open>0\<close> as
  constructed) a white channel gives the byte \<open>255\<close> as the 8-bit value \<open>255\<close> and the
  byte \<open>2\<close> as the normalised float \<open>1.0\<close> or as the half-float code \<open>0x3C00\<close> of
  \<open>1.0\<close>: the float overloads raise \<open>channel / 255\<close>, not \<open>channel\<close>, to the power
  \<open>1 / gamma\<close>. In binary32 \<open>1.0f / 255\<close> is \<open>8421505 / 2^31\<close>, its square rounds to
  \<open>8454531 / 2^39\<close>, the two products with \<open>255\<close> round to \<open>8421505 / 2^31\<close> and to
  \<open>1\<close>, and the adjustment doubles it.
\<close>

theorem ProcessChannel_overloads_differ:
  "ProcessChannel_uint8 (default_component\<lparr>GammaCorrection := Fin (1 / 2)\<rparr>) 255 = Some 255
   \<and> ProcessChannel_float (default_component\<lparr>GammaCorrection := Fin (1 / 2)\<rparr>)
        (fdiv (of_u8 255) (Fin 255)) = Some 2
   \<and> ProcessChannel_FFloat16 decode_half (default_component\<lparr>GammaCorrection := Fin (1 / 2)\<rparr>)
        0x3C00 = Some 2"
proof -
  have a1: "fdiv (Fin 1) (Fin (1 / 2)) = Fin 2"
    by (simp add: fdiv_def, rule rnd32_eval[where e = "1" and m = 8388608], simp_all)
  have a2: "fdiv (Fin 255) (Fin 255) = Fin 1"
    by (simp add: fdiv_def, rule rnd32_eval[where e = "0" and m = 8388608], simp_all)
  have a3: "rnd32 (Fin 1) = Fin 1"
    by (rule rnd32_eval[where e = "0" and m = 8388608], simp_all)
  have a4: "fmul (Fin 1) (Fin 255) = Fin 255"
    by (simp add: fmul_def, rule rnd32_eval[where e = "7" and m = 16711680], simp_all)
  have a5: "fsub (Fin 255) (Fin 128) = Fin 127"
    by (simp add: fsub_def, rule rnd32_eval[where e = "6" and m = 16646144], simp_all)
  have a6: "fmul (Fin 1) (Fin 127) = Fin 127"
    by (simp add: fmul_def, rule rnd32_eval[where e = "6" and m = 16646144], simp_all)
  have a7: "fadd (Fin 127) (Fin 128) = Fin 255"
    by (simp add: fadd_def, rule rnd32_eval[where e = "7" and m = 16711680], simp_all)
  have a8: "fadd (Fin 255) (Fin 0) = Fin 255"
    by (simp add: fadd_def, rule rnd32_eval[where e = "7" and m = 16711680], simp_all)
  have a9: "fadd (Fin 255) (Fin 255) = Fin 510"
    by (simp add: fadd_def, rule rnd32_eval[where e = "8" and m = 16711680], simp_all)
  have b1: "fdiv (Fin 1) (Fin 255) = Fin (8421505 / 2147483648)"
    by (simp add: fdiv_def, rule rnd32_eval[where e = "- 8" and m = 8421505], simp_all)
  have b2: "Pow_f (Fin (8421505 / 2147483648)) (Fin 2) = Fin (8454531 / 549755813888)"
    by (simp add: Pow_f_def Pow_x_def is_zero_def is_inf_def power_divide, rule rnd32_eval[where e = "- 16" and m = 8454531], simp_all)
  have b3: "fmul (Fin (8454531 / 549755813888)) (Fin 255) = Fin (8421505 / 2147483648)"
    by (simp add: fmul_def, rule rnd32_eval[where e = "- 8" and m = 8421505], simp_all)
  have b4: "fmul (Fin (8421505 / 2147483648)) (Fin 255) = Fin 1"
    by (simp add: fmul_def, rule rnd32_eval[where e = "0" and m = 8388608], simp_all)
  have b5: "fsub (Fin 1) (Fin 128) = Fin (- 127)"
    by (simp add: fsub_def, rule rnd32_eval[where e = "6" and m = "- 16646144"], simp_all)
  have b6: "fmul (Fin 1) (Fin (- 127)) = Fin (- 127)"
    by (simp add: fmul_def, rule rnd32_eval[where e = "6" and m = "- 16646144"], simp_all)
  have b7: "fadd (Fin (- 127)) (Fin 128) = Fin 1"
    by (simp add: fadd_def, rule rnd32_eval[where e = "0" and m = 8388608], simp_all)
  have b8: "fadd (Fin 1) (Fin 0) = Fin 1"
    by (simp add: fadd_def, rule rnd32_eval[where e = "0" and m = 8388608], simp_all)
  have b9: "fadd (Fin 1) (Fin 1) = Fin 2"
    by (simp add: fadd_def, rule rnd32_eval[where e = "1" and m = 8388608], simp_all)
  have h: "decode_half 0x3C00 = Fin 1"
    by (simp add: decode_half_def)
  have u: "ProcessChannel_uint8 (default_component\<lparr>GammaCorrection := Fin (1 / 2)\<rparr>) 255 = Some 255"
    by (simp add: ProcessChannel_uint8_def default_component_def of_u8_def adjust_def
          Pow_f_def Pow_x_def a1 a2 a3 a4 a5 a6 a7 a8 a9
          clamp_255_def fgt_def flt_def round_away_def trunc_zero_def)
  have f: "ProcessChannel_float (default_component\<lparr>GammaCorrection := Fin (1 / 2)\<rparr>) (Fin 1) = Some 2"
    by (simp add: ProcessChannel_float_def default_component_def adjust_def
          a1 b1 b2 b3 b4 b5 b6 b7 b8 b9
          clamp_255_def fgt_def flt_def round_away_def trunc_zero_def)
  show ?thesis
    using u f by (simp add: ProcessChannel_FFloat16_def ProcessChannel_float_def h of_u8_def a2)
qed

text \<open>
  The quotient \<open>c / 255\<close> of a channel value below \<open>255\<close> is below \<open>1\<close>.
\<close>

lemma fdiv_255_less_1:
  fixes n :: nat
  assumes "n < 255"
  shows "\<exists>x. fdiv (Fin (real n)) (Fin 255) = Fin x \<and> 0 \<le> x \<and> x < 1"
proof (cases "n = 0")
  case True
  then show ?thesis by (simp add: fdiv_def)
next
  case False
  then have n1: "1 \<le> real n" by simp
  have n2: "real n \<le> 254" using assms by simp
  have lo: "(2::real) powi (- 126) \<le> 1 / 1000" by simp
  have hi: "(1000::real) < 2 powi 127" by simp
  have a1: "2 powi (- 126) \<le> \<bar>real n / 255\<bar>" "\<bar>real n / 255\<bar> < 2 powi 127"
    using n1 n2 lo hi by (simp_all add: abs_if, (linarith+)?)
  from rnd32_rel[OF a1] obtain x where
    x: "rnd32 (Fin (real n / 255)) = Fin x" "\<bar>x - real n / 255\<bar> \<le> \<bar>real n / 255\<bar> / 2 ^ 24"
    by blast
  have "0 \<le> x" "x < 1"
    using x(2) n1 n2 by (simp_all add: abs_if split: if_splits, (linarith+)?)
  then show ?thesis using x(1) by (simp add: fdiv_def)
qed

text \<open>
  C5, as the code has it. \<^verbatim>\<open>ProcessChannel\<close> does not test gamma. With gamma zero
  the exponent \<open>1 / gamma\<close> is the IEEE quotient, the infinity that has the sign of
  the zero, and the byte returned is the adjusted, clamped and rounded value of
  \<open>pow (c / 255, 1 / gamma) * 255\<close>: for the exponent \<open>+\<infinity>\<close> this is \<open>0\<close> when \<open>c < 255\<close>,
  for the exponent \<open>-\<infinity>\<close> it is \<open>+\<infinity>\<close> when \<open>c < 255\<close>, and it is \<open>255\<close> when
  \<open>c = 255\<close>.
\<close>

theorem ProcessChannel_uint8_gamma_zero:
  "fdiv (Fin 1) (GammaCorrection (vc\<lparr>GammaCorrection := Fin 0\<rparr>)) = PInf
   \<and> fdiv (Fin 1) (GammaCorrection (vc\<lparr>GammaCorrection := NZero\<rparr>)) = NInf
   \<and> ProcessChannel_uint8 (vc\<lparr>GammaCorrection := Fin 0\<rparr>) c =
       to_uint8 (fround (clamp_255 (adjust vc (if c = 255 then Fin 255 else Fin 0))))
   \<and> ProcessChannel_uint8 (vc\<lparr>GammaCorrection := NZero\<rparr>) c =
       to_uint8 (fround (clamp_255 (adjust vc (if c = 255 then Fin 255 else PInf))))"
proof -
  have q1: "fdiv (Fin 1) (Fin 0) = PInf"
    by (simp add: fdiv_def xdiv_def is_inf_def is_zero_def inf_of_def is_neg_def)
  have q2: "fdiv (Fin 1) NZero = NInf"
    by (simp add: fdiv_def xdiv_def is_inf_def is_zero_def inf_of_def is_neg_def)
  have g: "fmul (Pow_f (fdiv (of_u8 c) (Fin 255)) PInf) (Fin 255) = (if c = 255 then Fin 255 else Fin 0)
         \<and> fmul (Pow_f (fdiv (of_u8 c) (Fin 255)) NInf) (Fin 255) = (if c = 255 then Fin 255 else PInf)"
  proof (cases "c = 255")
    case True
    then show ?thesis
      by (simp add: of_u8_def fdiv_def fmul_def Pow_f_def Pow_x_def rnd32_1 rnd32_255)
  next
    case False
    then have "unat c \<noteq> 255" by (simp add: word_unat_eq_iff)
    moreover have "unat c < 256" using unsigned_less[of c, where 'a=nat] by simp
    ultimately have "unat c < 255" by simp
    from fdiv_255_less_1[OF this] obtain x where
      x: "fdiv (Fin (real (unat c))) (Fin 255) = Fin x \<and> 0 \<le> x \<and> x < 1" ..
    then have "Pow_x (Fin x) PInf = Fin 0" "Pow_x (Fin x) NInf = PInf"
      by (simp_all add: Pow_x_def is_zero_def is_inf_def)
    then show ?thesis
      using False x
      by (simp add: of_u8_def Pow_f_def fmul_def xmul_def is_inf_def is_zero_def zero_of_def
            inf_of_def is_neg_def del: of_nat_unat)
  qed
  have adj: "adjust (vc\<lparr>GammaCorrection := z\<rparr>) out = adjust vc out" for z out
    by (simp add: adjust_def)
  show ?thesis
    using g by (simp add: ProcessChannel_uint8_def q1 q2 adj)
qed

text \<open>
  C5 as stated fails on the component as constructed with gamma set to zero, at
  \<open>c = 100\<close>: the quotient \<open>1 / gamma\<close> is evaluated (it is \<open>+\<infinity>\<close> for \<open>+0\<close> and \<open>-\<infinity>\<close>
  for \<open>-0\<close>), a byte is returned (\<open>0\<close> and \<open>255\<close>), and it is not the byte \<open>200\<close>
  that the constructor's gamma \<open>1\<close> gives.
\<close>

theorem ProcessChannel_uint8_gamma_zero_counterexample:
  "fdiv (Fin 1) (GammaCorrection (default_component\<lparr>GammaCorrection := Fin 0\<rparr>)) = PInf
   \<and> ProcessChannel_uint8 (default_component\<lparr>GammaCorrection := Fin 0\<rparr>) 100 = Some 0
   \<and> fdiv (Fin 1) (GammaCorrection (default_component\<lparr>GammaCorrection := NZero\<rparr>)) = NInf
   \<and> ProcessChannel_uint8 (default_component\<lparr>GammaCorrection := NZero\<rparr>) 100 = Some 255
   \<and> ProcessChannel_uint8 default_component 100 = Some 200"
proof -
  have d1: "fdiv (Fin 1) (Fin 1) = Fin 1"
    by (simp add: fdiv_def, rule rnd32_eval[where e = "0" and m = 8388608], simp_all)
  have d2: "fdiv (Fin 100) (Fin 255) = Fin (13158601 / 33554432)"
    by (simp add: fdiv_def, rule rnd32_eval[where e = "- 2" and m = 13158601], simp_all)
  have d3: "rnd32 (Fin (13158601 / 33554432)) = Fin (13158601 / 33554432)"
    by (rule rnd32_eval[where e = "- 2" and m = 13158601], simp_all)
  have d4: "fmul (Fin (13158601 / 33554432)) (Fin 255) = Fin 100"
    by (simp add: fmul_def, rule rnd32_eval[where e = "6" and m = 13107200], simp_all)
  have d5: "fsub (Fin 100) (Fin 128) = Fin (- 28)"
    by (simp add: fsub_def, rule rnd32_eval[where e = "4" and m = "- 14680064"], simp_all)
  have d6: "fmul (Fin 1) (Fin (- 28)) = Fin (- 28)"
    by (simp add: fmul_def, rule rnd32_eval[where e = "4" and m = "- 14680064"], simp_all)
  have d7: "fadd (Fin (- 28)) (Fin 128) = Fin 100"
    by (simp add: fadd_def, rule rnd32_eval[where e = "6" and m = 13107200], simp_all)
  have d8: "fadd (Fin 100) (Fin 0) = Fin 100"
    by (simp add: fadd_def, rule rnd32_eval[where e = "6" and m = 13107200], simp_all)
  have d9: "fadd (Fin 100) (Fin 100) = Fin 200"
    by (simp add: fadd_def, rule rnd32_eval[where e = "7" and m = 13107200], simp_all)
  have z1: "fsub (Fin 0) (Fin 128) = Fin (- 128)"
    by (simp add: fsub_def, rule rnd32_eval[where e = "7" and m = "- 8388608"], simp_all)
  have z2: "fmul (Fin 1) (Fin (- 128)) = Fin (- 128)"
    by (simp add: fmul_def, rule rnd32_eval[where e = "7" and m = "- 8388608"], simp_all)
  have z3: "fadd (Fin (- 128)) (Fin 128) = Fin 0"
    by (simp add: fadd_def)
  have z4: "fadd (Fin 0) (Fin 0) = Fin 0"
    by (simp add: fadd_def)
  have z5: "fadd (Fin 0) (Fin 0) = Fin 0"
    by (simp add: fadd_def)
  have q1: "fdiv (Fin 1) (Fin 0) = PInf"
    by (simp add: fdiv_def xdiv_def is_inf_def is_zero_def inf_of_def is_neg_def)
  have q2: "fdiv (Fin 1) NZero = NInf"
    by (simp add: fdiv_def xdiv_def is_inf_def is_zero_def inf_of_def is_neg_def)
  have pz: "Pow_f (Fin (13158601 / 33554432)) PInf = Fin 0"
    by (simp add: Pow_f_def Pow_x_def is_zero_def is_inf_def)
  have pn: "Pow_f (Fin (13158601 / 33554432)) NInf = PInf"
    by (simp add: Pow_f_def Pow_x_def is_zero_def is_inf_def)
  have mz: "fmul (Fin 0) (Fin 255) = Fin 0"
    by (simp add: fmul_def)
  have mi: "fmul PInf (Fin 255) = PInf"
    by (simp add: fmul_def xmul_def is_inf_def is_zero_def inf_of_def is_neg_def)
  have ai: "adjust default_component PInf = PInf"
    by (simp add: adjust_def default_component_def fadd_def fsub_def fmul_def xadd_def xsub_def
          xmul_def is_inf_def is_zero_def inf_of_def is_neg_def)
  have c1: "ProcessChannel_uint8 (default_component\<lparr>GammaCorrection := Fin 0\<rparr>) 100 = Some 0"
    by (simp add: ProcessChannel_uint8_def default_component_def of_u8_def adjust_def Let_def
          q1 d2 pz mz z1 z2 z3 z4 clamp_255_def fgt_def flt_def round_away_def trunc_zero_def)
  have adj: "adjust (default_component\<lparr>GammaCorrection := NZero\<rparr>) PInf = PInf"
    using ai by (simp add: adjust_def)
  have c2: "ProcessChannel_uint8 (default_component\<lparr>GammaCorrection := NZero\<rparr>) 100 = Some 255"
    by (simp add: ProcessChannel_uint8_def of_u8_def q2 d2 pn mi adj Let_def
          clamp_255_def fgt_def flt_def round_away_def trunc_zero_def)
  have c3: "ProcessChannel_uint8 default_component 100 = Some 200"
    by (simp add: ProcessChannel_uint8_def default_component_def of_u8_def adjust_def
          Pow_f_def Pow_x_1 d1 d2 d3 d4 d5 d6 d7 d8 d9
          clamp_255_def fgt_def flt_def round_away_def trunc_zero_def)
  show ?thesis using q1 q2 c1 c2 c3 by simp
qed

section \<open>Properties of convertDepth\<close>

text \<open>
  The loop started at iteration \<open>i\<close> returns, keeps the length of the output array,
  and overwrites exactly the floats from \<open>4 * i\<close> up to \<open>4 * sz\<close>, each with the
  conversion of the sample at the same index.
\<close>

lemma convertDepth_loop_inv:
  assumes "4 * sz \<le> length inp" "length out = length inp"
  shows "\<exists>out'. convertDepth_loop i sz inp out = Some out' \<and> length out' = length out \<and>
           (\<forall>j < length out. out' ! j =
              (if 4 * i \<le> j \<and> j < 4 * sz then DepthUnitConverter_spec (inp ! j) else out ! j))"
  using assms
proof (induction i sz inp out rule: convertDepth_loop.induct)
  case (1 i sz inp out)
  show ?case
  proof (cases "i < sz")
    case False
    then show ?thesis by (subst convertDepth_loop.simps) auto
  next
    case True
    with 1(2,3) have rng: "4 * i + 3 < length inp \<and> 4 * i + 3 < length out" by simp
    let ?out = "store_ps out (4 * i)
               (div_ps (mm_cvtph_ps (mm_set_epi16 0 0 0 0
                  (inp ! (4 * i + 3)) (inp ! (4 * i + 2)) (inp ! (4 * i + 1)) (inp ! (4 * i + 0))))
                (Fin 100))"
    have len: "length ?out = length inp" using 1(3) by (simp add: mm_set_epi16_def)
    from 1(1)[OF True rng 1(2) len]
    obtain out' where o: "convertDepth_loop (i + 1) sz inp ?out = Some out'"
      "length out' = length ?out"
      "\<forall>j < length ?out. out' ! j =
         (if 4 * (i + 1) \<le> j \<and> j < 4 * sz then DepthUnitConverter_spec (inp ! j) else ?out ! j)"
      by blast
    have eq: "convertDepth_loop i sz inp out = Some out'"
      using True rng o(1) by (subst convertDepth_loop.simps) simp
    have "out' ! j = (if 4 * i \<le> j \<and> j < 4 * sz then DepthUnitConverter_spec (inp ! j) else out ! j)"
      if "j < length out" for j
    proof -
      have j: "j < length ?out" using that len 1(3) by simp
      consider "j < 4 * i" | "j = 4 * i" | "j = 4 * i + 1" | "j = 4 * i + 2"
        | "j = 4 * i + 3" | "4 * (i + 1) \<le> j"
        by atomize_elim presburger
      then show ?thesis
        using o(3)[rule_format, OF j] rng True
        by cases (simp_all add: mm_set_epi16_def DepthUnitConverter_spec_def)
    qed
    with eq o(2) len 1(3) show ?thesis by simp
  qed
qed

lemma fdiv_1_100: "fdiv (Fin 1) (Fin 100) = Fin (5368709 / 536870912)"
  by (simp add: fdiv_def, rule rnd32_eval[where e = "- 7" and m = 10737418], simp_all)

lemma fdiv_2_100: "fdiv (Fin 2) (Fin 100) = Fin (5368709 / 268435456)"
  by (simp add: fdiv_def, rule rnd32_eval[where e = "- 6" and m = 10737418], simp_all)

lemma fdiv_m2_100: "fdiv (Fin (- 2)) (Fin 100) = Fin (- (5368709 / 268435456))"
  by (simp add: fdiv_def, rule rnd32_eval[where e = "- 6" and m = "- 10737418"], simp_all)

lemma fdiv_0_100: "fdiv (Fin 0) (Fin 100) = Fin 0"
  by (simp add: fdiv_def)

text \<open>
  C6. For an input array of \<open>Width * Height\<close> half-float codes whose length is a
  multiple of 4, and an output array of the same number of floats, \<^verbatim>\<open>convertDepth\<close>
  returns with every output element \<open>i\<close> equal to \<open>decode_half (inp ! i) / 100\<close>, the
  quotient of two floats. It runs \<open>size\<close> vector operations of 4 samples each, which
  cover the array (\<open>4 * size = length inp\<close>). The code \<open>0x3C00\<close> of \<open>1.0\<close> is converted
  to the float nearest to \<open>0.01\<close>, which is \<open>5368709 / 2^29\<close>, less than \<open>10^-9\<close> away
  from it.
\<close>

theorem convertDepth_meters:
  assumes "length inp = unat (Width vc * Height vc)" "4 dvd length inp" "length out = length inp"
  shows "convertDepth vc inp out = Some (map DepthUnitConverter_spec inp)
         \<and> 4 * convertDepth_size vc = length inp
         \<and> (\<exists>x. DepthUnitConverter_spec 0x3C00 = Fin x \<and> \<bar>x - 1 / 100\<bar> \<le> 1 / 10 ^ 6)"
proof -
  have sz: "4 * convertDepth_size vc = length inp"
    using assms(1,2) by (simp add: convertDepth_size_def unat_div)
  then have "4 * convertDepth_size vc \<le> length inp" by simp
  from convertDepth_loop_inv[OF this assms(3), of 0]
  obtain out' where o: "convertDepth vc inp out = Some out'" "length out' = length out"
    "\<forall>j < length out. out' ! j =
       (if 4 * 0 \<le> j \<and> j < 4 * convertDepth_size vc then DepthUnitConverter_spec (inp ! j) else out ! j)"
    unfolding convertDepth_def by blast
  have "out' = map DepthUnitConverter_spec inp"
    using o(2,3) assms(3) sz by (intro nth_equalityI) simp_all
  moreover have "\<exists>x. DepthUnitConverter_spec 0x3C00 = Fin x \<and> \<bar>x - 1 / 100\<bar> \<le> 1 / 10 ^ 6"
    by (rule exI[of _ "5368709 / 536870912"])
       (simp add: DepthUnitConverter_spec_def decode_half_def fdiv_1_100)
  ultimately show ?thesis using o(1) sz by blast
qed

text \<open>
  A 2 by 2 image with the codes of \<open>1.0\<close>, \<open>2.0\<close>, \<open>0\<close> and \<open>-2.0\<close>, written over an
  output array of four NaNs.
\<close>

theorem convertDepth_meters_witness:
  "length [0x3C00, 0x4000, 0, 0xC000 :: 16 word]
     = unat (Width (default_component\<lparr>Width := 2, Height := 2\<rparr>)
             * Height (default_component\<lparr>Width := 2, Height := 2\<rparr>))
   \<and> 4 dvd length [0x3C00, 0x4000, 0, 0xC000 :: 16 word]
   \<and> length [NaN, NaN, NaN, NaN] = length [0x3C00, 0x4000, 0, 0xC000 :: 16 word]
   \<and> convertDepth (default_component\<lparr>Width := 2, Height := 2\<rparr>)
        [0x3C00, 0x4000, 0, 0xC000] [NaN, NaN, NaN, NaN]
      = Some [Fin (5368709 / 536870912), Fin (5368709 / 268435456), Fin 0,
              Fin (- (5368709 / 268435456))]"
proof -
  have l: "length [0x3C00, 0x4000, 0, 0xC000 :: 16 word] = 4" by simp
  have h1: "length [0x3C00, 0x4000, 0, 0xC000 :: 16 word]
     = unat (Width (default_component\<lparr>Width := 2, Height := 2\<rparr>)
             * Height (default_component\<lparr>Width := 2, Height := 2\<rparr>))"
    by simp
  have h2: "4 dvd length [0x3C00, 0x4000, 0, 0xC000 :: 16 word]"
    unfolding l by simp
  have h3: "length [NaN, NaN, NaN, NaN] = length [0x3C00, 0x4000, 0, 0xC000 :: 16 word]"
    by simp
  have d: "decode_half 0x3C00 = Fin 1" "decode_half 0x4000 = Fin 2" "decode_half 0 = Fin 0"
    "decode_half 0xC000 = Fin (- 2)"
    by (simp_all add: decode_half_def zero_of_def)
  show ?thesis
    using h1 h2 h3 convertDepth_meters [OF h1 h2 h3]
    by (simp add: DepthUnitConverter_spec_def d fdiv_1_100 fdiv_2_100 fdiv_m2_100 fdiv_0_100)
qed

section \<open>Properties of the CameraInfo message\<close>

text \<open>
  C10. In the CameraInfo message the vertical focal length is the horizontal one:
  \<open>K[4] = K[0] = (Width / 2) / tan (FOVX * PI / 360)\<close>, and \<open>P[5] = K[4]\<close>, for every
  width, height and field of view. The half angle of the vertical field of view does
  not enter the intrinsic matrix nor the projection matrix.
\<close>

theorem CameraInfo_focal_lengths:
  "cam_K (TickComponent_CameraInfo vc) ! 4 = cam_K (TickComponent_CameraInfo vc) ! 0
   \<and> cam_K (TickComponent_CameraInfo vc) ! 0 =
       ddiv (ddiv (of_u32 (Width vc)) (Fin 2))
         (ftan (ddiv (fmul (FOVX vc) PI) (Fin 360)))
   \<and> cam_P (TickComponent_CameraInfo vc) ! 5 = cam_K (TickComponent_CameraInfo vc) ! 4
   \<and> cam_K (fill_CameraInfo vc hx hy) = cam_K (fill_CameraInfo vc hx hy')
   \<and> cam_P (fill_CameraInfo vc hx hy) = cam_P (fill_CameraInfo vc hx hy')"
  by (simp add: TickComponent_CameraInfo_def fill_CameraInfo_def half_angle_def Let_def)

section \<open>Properties of the framerate gate\<close>










section \<open>Properties of GenerateColors\<close>

lemma sint_of_nat_diff:
  fixes a b :: nat
  assumes "- (2 ^ 31) \<le> int a - int b" "int a - int b < 2 ^ 31"
  shows "sint (of_nat a - of_nat b :: 32 word) = int a - int b"
proof -
  have "(of_nat a - of_nat b :: 32 word) = word_of_int (int a - int b)" by simp
  then show ?thesis
    using assms by (simp only: sint_sbintrunc') (simp add: signed_take_bit_int_eq_self)
qed

lemma counts_exit:
  "left \<le> 0 \<Longrightarrow> GenerateColors_counts N H S V left = Some (S, V)"
  by (subst GenerateColors_counts.simps) simp

lemma counts_step:
  assumes "0 < left"
  shows "GenerateColors_counts N H S V left =
     (if 0 < sint (N - S * (V + 1) * H)
      then GenerateColors_counts N H (S + 1) (V + 1) (sint (N - (S + 1) * (V + 1) * H))
      else GenerateColors_counts N H S (V + 1) (sint (N - S * (V + 1) * H)))"
  using assms by (subst GenerateColors_counts.simps) (simp add: Let_def)

lemma counts_terminates:
  fixes n k :: nat
  assumes "n \<le> 2 ^ 31 + 49" "1 \<le> k" "50 * (k * k) < n"
  shows "\<exists>S V. GenerateColors_counts (of_nat n) 50 (of_nat k) (of_nat k) (int n - int (50 * (k * k)))
            = Some (of_nat S, of_nat V)
          \<and> n \<le> 50 * (S * V) \<and> k \<le> S \<and> S \<le> V \<and> V \<le> S + 1 \<and> V \<le> 6554"
  using assms
proof (induction "n - 50 * (k * k)" arbitrary: k rule: less_induct)
  case less
  define a where "a = k * k"
  have k: "k \<le> 6553"
  proof (rule ccontr)
    assume "\<not> k \<le> 6553"
    then have "6554 \<le> k" by simp
    then have "6554 * 6554 \<le> k * k" by (intro mult_le_mono)
    with less.prems(1,3) show False by simp
  qed
  have ka: "k \<le> a" using less.prems(2) unfolding a_def by simp
  have sq: "(k + 1) * (k + 1) = a + 2 * k + 1" "k * (k + 1) = a + k"
    unfolding a_def by (simp_all add: algebra_simps)
  have an: "50 * a < n" using less.prems(3) unfolding a_def .
  have w1: "(of_nat k * (of_nat k + 1) * 50 :: 32 word) = of_nat (50 * (a + k))"
    using sq(2) by (metis (no_types, opaque_lifting) mult.commute of_nat_1 of_nat_add of_nat_mult of_nat_numeral)
  have w2: "((of_nat k + 1) * (of_nat k + 1) * 50 :: 32 word) = of_nat (50 * (a + 2 * k + 1))"
    using sq(1) by (metis (no_types, opaque_lifting) mult.commute of_nat_1 of_nat_add of_nat_mult of_nat_numeral)
  have l1: "sint (of_nat n - of_nat k * (of_nat k + 1) * 50 :: 32 word) = int n - int (50 * (a + k))"
    unfolding w1 using less.prems(1,2) an k ka by (intro sint_of_nat_diff) simp_all
  have pos: "0 < int n - int (50 * (k * k))"
    using less.prems(3) by (simp only: diff_gt_0_iff_gt of_nat_less_iff)
  note st = counts_step[OF pos, of "of_nat n" 50 "of_nat k" "of_nat k"]
  show ?case
  proof (cases "50 * (a + k) < n")
    case False
    then have nl: "\<not> 0 < int n - int (50 * (a + k))"
      by (simp only: diff_gt_0_iff_gt of_nat_less_iff not_False_eq_True)
    then have le: "int n - int (50 * (a + k)) \<le> 0" by simp
    have "GenerateColors_counts (of_nat n) 50 (of_nat k) (of_nat k) (int n - int (50 * (k * k)))
       = GenerateColors_counts (of_nat n) 50 (of_nat k) (of_nat k + 1) (int n - int (50 * (a + k)))"
      by (simp only: st l1 nl if_False)
    also have "\<dots> = Some (of_nat k, of_nat (k + 1))"
      by (simp only: counts_exit[OF le] of_nat_add of_nat_1)
    finally have r: "GenerateColors_counts (of_nat n) 50 (of_nat k) (of_nat k)
        (int n - int (50 * (k * k))) = Some (of_nat k, of_nat (k + 1))" .
    have "n \<le> 50 * (k * (k + 1))" using False unfolding sq(2) by simp
    moreover have "k + 1 \<le> 6554" using k by simp
    ultimately show ?thesis
      using r by - (rule exI[of _ k], rule exI[of _ "k + 1"], simp)
  next
    case True
    then have p1: "0 < int n - int (50 * (a + k))"
      by (simp only: diff_gt_0_iff_gt of_nat_less_iff)
    have l2: "sint (of_nat n - (of_nat k + 1) * (of_nat k + 1) * 50 :: 32 word)
               = int n - int (50 * (a + 2 * k + 1))"
      unfolding w2 using less.prems(1,2) True k ka by (intro sint_of_nat_diff) simp_all
    have step: "GenerateColors_counts (of_nat n) 50 (of_nat k) (of_nat k) (int n - int (50 * (k * k)))
       = GenerateColors_counts (of_nat n) 50 (of_nat (k + 1)) (of_nat (k + 1))
           (int n - int (50 * ((k + 1) * (k + 1))))"
      by (simp only: st l1 l2 p1 if_True sq(1) of_nat_add of_nat_1)
    show ?thesis
    proof (cases "50 * ((k + 1) * (k + 1)) < n")
      case False
      then have "int n - int (50 * ((k + 1) * (k + 1))) \<le> 0"
        by (simp only: diff_le_0_iff_le of_nat_le_iff not_less)
      then have "GenerateColors_counts (of_nat n) 50 (of_nat k) (of_nat k) (int n - int (50 * (k * k)))
         = Some (of_nat (k + 1), of_nat (k + 1))"
        unfolding step by (rule counts_exit)
      moreover have "n \<le> 50 * ((k + 1) * (k + 1))" using False by simp
      moreover have "k + 1 \<le> 6554" using k by simp
      ultimately show ?thesis
        by - (rule exI[of _ "k + 1"], rule exI[of _ "k + 1"], simp)
    next
      case T2: True
      have "n - 50 * ((k + 1) * (k + 1)) < n - 50 * (k * k)"
        using T2 unfolding sq(1) a_def by simp
      from less.hyps[OF this less.prems(1) _ T2]
      obtain S V where "GenerateColors_counts (of_nat n) 50 (of_nat (k + 1)) (of_nat (k + 1))
           (int n - int (50 * ((k + 1) * (k + 1)))) = Some (of_nat S, of_nat V)"
        "n \<le> 50 * (S * V)" "k + 1 \<le> S" "S \<le> V" "V \<le> S + 1" "V \<le> 6554"
        by auto
      then show ?thesis
        unfolding step by - (rule exI[of _ S], rule exI[of _ V], simp)
    qed
  qed
qed

lemma length_palette:
  "length (palette f H S V) = unat S * (unat V * unat H)"
  by (simp add: palette_def Let_def length_concat comp_def sum_list_triv)

lemma initial_left:
  fixes N :: "32 word"
  shows "max 0 (sint (N - 50)) =
     (if 50 < unat N \<and> unat N \<le> 2 ^ 31 + 49 then int (unat N) - 50 else 0)"
proof -
  define n where "n = unat N"
  have N: "N = of_nat n" unfolding n_def by simp
  have n: "n < 2 ^ 32" unfolding n_def using unsigned_less[of N, where 'a=nat] by simp
  have un: "unat (of_nat n :: 32 word) = n" using n by (simp add: unat_of_nat)
  consider "n \<le> 2 ^ 31 + 49" | "2 ^ 31 + 50 \<le> n" by linarith
  then show ?thesis
  proof cases
    case 1
    have "sint (of_nat n - of_nat 50 :: 32 word) = int n - int 50"
      using 1 by (intro sint_of_nat_diff) simp_all
    then show ?thesis using 1 unfolding N un by auto
  next
    case 2
    have "sint (of_nat (n - 50) - of_nat (2 ^ 32) :: 32 word) = int (n - 50) - int (2 ^ 32)"
      using 2 n by (intro sint_of_nat_diff) simp_all
    moreover have "(of_nat (n - 50) - of_nat (2 ^ 32) :: 32 word) = of_nat n - 50"
      using 2 by (simp add: of_nat_diff)
    ultimately have "sint (of_nat n - 50 :: 32 word) < 0" using n by simp
    then show ?thesis using 2 unfolding N un by auto
  qed
qed

text \<open>
  For every count up to \<open>2^31 + 49\<close> the loop returns, with counts whose product
  with the 50 hues is at least the count requested.
\<close>

lemma GenerateColors_counts_sufficient:
  assumes "unat NumberOfColors \<le> 2 ^ 31 + 49"
  shows "\<exists>S V. GenerateColors_counts NumberOfColors 50 1 1 (max 0 (sint (NumberOfColors - 50)))
              = Some (S, V)
           \<and> unat NumberOfColors \<le> 50 * (unat S * unat V)"
proof (cases "50 < unat NumberOfColors")
  case False
  then have "max 0 (sint (NumberOfColors - 50)) = 0" by (simp add: initial_left)
  then have "GenerateColors_counts NumberOfColors 50 1 1 (max 0 (sint (NumberOfColors - 50)))
      = Some (1, 1)"
    by (simp add: counts_exit)
  then show ?thesis using False by simp
next
  case True
  define n where "n = unat NumberOfColors"
  have N: "NumberOfColors = of_nat n" unfolding n_def by simp
  have l: "max 0 (sint (NumberOfColors - 50)) = int n - int (50 * (1 * 1))"
    using True assms by (simp add: initial_left n_def)
  from counts_terminates[of n 1] True assms
  obtain S V where sv: "GenerateColors_counts (of_nat n) 50 (of_nat 1) (of_nat 1)
        (int n - int (50 * (1 * 1))) = Some (of_nat S, of_nat V)"
    "n \<le> 50 * (S * V)" "S \<le> V" "V \<le> 6554"
    unfolding n_def by auto
  have u: "unat (of_nat S :: 32 word) = S" "unat (of_nat V :: 32 word) = V"
    using sv(3,4) by (simp_all add: unat_of_nat)
  have "GenerateColors_counts NumberOfColors 50 1 1 (max 0 (sint (NumberOfColors - 50)))
      = Some (of_nat S, of_nat V)"
    using sv(1) unfolding l unfolding N by simp
  moreover have "unat NumberOfColors \<le> 50 * (unat (of_nat S :: 32 word) * unat (of_nat V :: 32 word))"
    using sv(2) unfolding u n_def[symmetric] .
  ultimately show ?thesis by blast
qed

lemma GenerateColors_sufficient:
  assumes "unat NumberOfColors \<le> 2 ^ 31 + 49"
  shows "\<exists>cs. GenerateColors f NumberOfColors vc = Some (vc\<lparr>ObjectColors := ObjectColors vc @ cs\<rparr>)
           \<and> unat NumberOfColors \<le> length cs"
proof -
  from GenerateColors_counts_sufficient[OF assms] obtain S V where
    sv: "GenerateColors_counts NumberOfColors 50 1 1 (max 0 (sint (NumberOfColors - 50)))
              = Some (S, V)"
        "unat NumberOfColors \<le> 50 * (unat S * unat V)"
    by blast
  have "GenerateColors f NumberOfColors vc
      = Some (vc\<lparr>ObjectColors := ObjectColors vc @ palette f 50 S V\<rparr>)"
    using sv(1) by (simp add: GenerateColors_def MaxHue_def)
  moreover have "unat NumberOfColors \<le> length (palette f 50 S V)"
    using sv(2) by (simp add: length_palette mult.commute)
  ultimately show ?thesis by blast
qed

text \<open>From \<open>2^31 + 50\<close> on, the loop is skipped and 50 colours are appended.\<close>

lemma GenerateColors_too_few:
  assumes "2 ^ 31 + 50 \<le> unat NumberOfColors"
  shows "GenerateColors f NumberOfColors vc
      = Some (vc\<lparr>ObjectColors := ObjectColors vc @ palette f 50 1 1\<rparr>)"
    and "length (palette f 50 1 1) = 50"
proof -
  have "max 0 (sint (NumberOfColors - 50)) = 0" using assms by (simp add: initial_left)
  then show "GenerateColors f NumberOfColors vc
      = Some (vc\<lparr>ObjectColors := ObjectColors vc @ palette f 50 1 1\<rparr>)"
    by (simp add: GenerateColors_def MaxHue_def counts_exit)
  show "length (palette f 50 1 1) = 50" by (simp add: length_palette)
qed

lemma GenerateColors_total:
  "\<exists>cs. GenerateColors f NumberOfColors vc = Some (vc\<lparr>ObjectColors := ObjectColors vc @ cs\<rparr>)"
proof (cases "unat NumberOfColors \<le> 2 ^ 31 + 49")
  case True
  from GenerateColors_sufficient[OF this] show ?thesis by blast
next
  case False
  then have "2 ^ 31 + 50 \<le> unat NumberOfColors" by simp
  from GenerateColors_too_few(1)[OF this] show ?thesis by blast
qed




text \<open>The counts that the specification lists.\<close>

lemma GenerateColors_listed:
  "N \<in> {1, 10, 49, 50, 51, 200} \<Longrightarrow>
   \<exists>cs. GenerateColors f N vc = Some (vc\<lparr>ObjectColors := ObjectColors vc @ cs\<rparr>)
        \<and> unat N \<le> length cs"
  by (rule GenerateColors_sufficient) auto

section \<open>Properties of ColorAllObjects\<close>

lemma word_le_succ:
  fixes a b :: "32 word"
  assumes "a < b"
  shows "a \<le> a + 1"
proof -
  have "unat a < unat b" using assms by (simp add: word_less_nat_alt)
  moreover have "unat b < 2 ^ 32" using unsigned_less[of b, where 'a=nat] by simp
  ultimately have "unat a + unat (1 :: 32 word) < 2 ^ LENGTH(32)" by simp
  then have "unat (a + 1) = unat a + unat (1 :: 32 word)"
    by (simp only: unat_add_lem)
  then show ?thesis by (simp add: word_le_nat_alt)
qed

lemma ColorAllObjects_loop_stable:
  assumes "ColorAllObjects_loop actors vc painted = Inr (vc', painted')"
  shows "(\<forall>name k. ObjectToColor vc name = Some k \<longrightarrow> ObjectToColor vc' name = Some k)
       \<and> dom (ObjectToColor vc') = dom (ObjectToColor vc) \<union> set actors
       \<and> ColorsUsed vc \<le> ColorsUsed vc'
       \<and> ObjectColors vc' = ObjectColors vc"
  using assms
proof (induction actors arbitrary: vc painted)
  case Nil
  then show ?case by simp
next
  case (Cons a rest)
  show ?case
  proof (cases "a \<in> dom (ObjectToColor vc)")
    case True
    with Cons.prems obtain c where
      "ColorAllObjects_loop rest vc (painted @ [(a, c)]) = Inr (vc', painted')"
      by (auto split: sum.splits if_splits)
    from Cons.IH[OF this] True show ?thesis by auto
  next
    case False
    let ?vc1 = "vc\<lparr>ObjectToColor := (ObjectToColor vc)(a \<mapsto> ColorsUsed vc),
                   ColorsUsed := ColorsUsed vc + 1\<rparr>"
    from Cons.prems False obtain c where
      chk: "ColorsUsed vc < of_nat (length (ObjectColors vc))" and
      r: "ColorAllObjects_loop rest ?vc1 (painted @ [(a, c)]) = Inr (vc', painted')"
      by (auto split: sum.splits if_splits)
    from chk have le: "ColorsUsed vc \<le> ColorsUsed vc + 1"
      by (rule word_le_succ)
    from Cons.IH[OF r] have
      ih1: "\<forall>name k. ObjectToColor ?vc1 name = Some k \<longrightarrow> ObjectToColor vc' name = Some k" and
      ih2: "dom (ObjectToColor vc') = dom (ObjectToColor ?vc1) \<union> set rest" and
      ih3: "ColorsUsed ?vc1 \<le> ColorsUsed vc'" and
      ih4: "ObjectColors vc' = ObjectColors ?vc1"
      by blast+
    have "ObjectToColor vc' name = Some k" if "ObjectToColor vc name = Some k" for name k
    proof -
      from that False have "name \<noteq> a" by auto
      with that have "ObjectToColor ?vc1 name = Some k" by simp
      with ih1 show ?thesis by blast
    qed
    moreover have "dom (ObjectToColor vc') = dom (ObjectToColor vc) \<union> set (a # rest)"
      using ih2 by simp
    moreover have "ColorsUsed vc \<le> ColorsUsed vc'"
      using le ih3 by simp
    moreover have "ObjectColors vc' = ObjectColors vc"
      using ih4 by simp
    ultimately show ?thesis by blast
  qed
qed

lemma ColorAllObjects_stable:
  assumes "ColorAllObjects f actors vc = Some (Inr (vc', painted))"
  shows "(\<forall>name k. ObjectToColor vc name = Some k \<longrightarrow> ObjectToColor vc' name = Some k)
       \<and> dom (ObjectToColor vc') = dom (ObjectToColor vc) \<union> set actors
       \<and> ColorsUsed vc \<le> ColorsUsed vc'"
proof -
  obtain cs where g: "GenerateColors f (of_nat (length actors) * 2) vc
      = Some (vc\<lparr>ObjectColors := ObjectColors vc @ cs\<rparr>)"
    using GenerateColors_total by blast
  with assms have
    "ColorAllObjects_loop actors (vc\<lparr>ObjectColors := ObjectColors vc @ cs\<rparr>) [] = Inr (vc', painted)"
    by (simp add: ColorAllObjects_def)
  from ColorAllObjects_loop_stable[OF this] show ?thesis by simp
qed

lemma ColorAllObjects_returns: "\<exists>r. ColorAllObjects f actors vc = Some r"
proof -
  obtain cs where "GenerateColors f (of_nat (length actors) * 2) vc
      = Some (vc\<lparr>ObjectColors := ObjectColors vc @ cs\<rparr>)"
    using GenerateColors_total by blast
  then show ?thesis by (simp add: ColorAllObjects_def)
qed

lemma recolor_passes_returns: "\<exists>r. recolor_passes f worlds vc = Some r"
proof (induction worlds arbitrary: vc)
  case Nil
  then show ?case by simp
next
  case (Cons actors worlds)
  obtain r where r: "ColorAllObjects f actors vc = Some r"
    using ColorAllObjects_returns by blast
  show ?case
  proof (cases r)
    case (Inl e)
    with r show ?thesis by simp
  next
    case (Inr p)
    obtain vc1 painted where "p = (vc1, painted)" by (cases p)
    with r Inr Cons.IH[of vc1] show ?thesis by simp
  qed
qed

text \<open>
  C8. Over any sequence of recolouring passes that returns, the table only grows: a
  name that has the identifier \<open>k\<close> before the passes has the same \<open>k\<close> after them, no
  entry is removed, the new keys are names of actors of the worlds coloured, and
  \<^verbatim>\<open>ColorsUsed\<close> does not decrease.
\<close>

theorem recolor_passes_stable:
  assumes "recolor_passes f worlds vc = Some (Inr vc')"
  shows "(\<forall>name k. ObjectToColor vc name = Some k \<longrightarrow> ObjectToColor vc' name = Some k)
       \<and> dom (ObjectToColor vc') = dom (ObjectToColor vc) \<union> \<Union> (set ` set worlds)
       \<and> ColorsUsed vc \<le> ColorsUsed vc'"
  using assms
proof (induction worlds arbitrary: vc)
  case Nil
  then show ?case by simp
next
  case (Cons actors worlds)
  from Cons.prems obtain vc1 painted where
    p: "ColorAllObjects f actors vc = Some (Inr (vc1, painted))" and
    r: "recolor_passes f worlds vc1 = Some (Inr vc')"
    by (auto split: option.splits sum.splits)
  from ColorAllObjects_stable[OF p] have
    a1: "\<forall>name k. ObjectToColor vc name = Some k \<longrightarrow> ObjectToColor vc1 name = Some k" and
    a2: "dom (ObjectToColor vc1) = dom (ObjectToColor vc) \<union> set actors" and
    a3: "ColorsUsed vc \<le> ColorsUsed vc1"
    by blast+
  from Cons.IH[OF r] have
    b1: "\<forall>name k. ObjectToColor vc1 name = Some k \<longrightarrow> ObjectToColor vc' name = Some k" and
    b2: "dom (ObjectToColor vc') = dom (ObjectToColor vc1) \<union> \<Union> (set ` set worlds)" and
    b3: "ColorsUsed vc1 \<le> ColorsUsed vc'"
    by blast+
  have "\<forall>name k. ObjectToColor vc name = Some k \<longrightarrow> ObjectToColor vc' name = Some k"
    using a1 b1 by blast
  moreover have "dom (ObjectToColor vc') = dom (ObjectToColor vc) \<union> \<Union> (set ` set (actors # worlds))"
    using a2 b2 by auto
  moreover have "ColorsUsed vc \<le> ColorsUsed vc'"
    using a3 b3 by simp
  ultimately show ?case by blast
qed

lemma GenerateColors_4:
  "GenerateColors f 4 vc = Some (vc\<lparr>ObjectColors := ObjectColors vc @ palette f 50 1 1\<rparr>)"
  by (simp add: GenerateColors_def MaxHue_def counts_exit)

text \<open>
  Two passes from the component as constructed, the first on the actors \<open>a\<close> and \<open>b\<close>,
  the second on \<open>b\<close> and \<open>c\<close>: \<open>b\<close> keeps the identifier 1 and \<open>c\<close> gets 2.
\<close>

theorem recolor_passes_stable_witness:
  "recolor_passes (\<lambda>h s v. \<lparr>R = 0, G = 0, B = 0, A = 255\<rparr>)
      [[''a'', ''b''], [''b'', ''c'']] default_component
     = Some (Inr (default_component
         \<lparr>ObjectColors := palette (\<lambda>h s v. \<lparr>R = 0, G = 0, B = 0, A = 255\<rparr>) 50 1 1
                           @ palette (\<lambda>h s v. \<lparr>R = 0, G = 0, B = 0, A = 255\<rparr>) 50 1 1,
          ObjectToColor := [''a'' \<mapsto> 0, ''b'' \<mapsto> 1, ''c'' \<mapsto> 2],
          ColorsUsed := 3\<rparr>))
   \<and> dom [''a'' \<mapsto> 0 :: 32 word, ''b'' \<mapsto> 1, ''c'' \<mapsto> 2]
       = dom (ObjectToColor default_component) \<union> \<Union> (set ` set [[''a'', ''b''], [''b'', ''c'']])
   \<and> ColorsUsed default_component \<le> 3"
proof -
  have run: "recolor_passes (\<lambda>h s v. \<lparr>R = 0, G = 0, B = 0, A = 255\<rparr>)
      [[''a'', ''b''], [''b'', ''c'']] default_component
     = Some (Inr (default_component
         \<lparr>ObjectColors := palette (\<lambda>h s v. \<lparr>R = 0, G = 0, B = 0, A = 255\<rparr>) 50 1 1
                           @ palette (\<lambda>h s v. \<lparr>R = 0, G = 0, B = 0, A = 255\<rparr>) 50 1 1,
          ObjectToColor := [''a'' \<mapsto> 0, ''b'' \<mapsto> 1, ''c'' \<mapsto> 2],
          ColorsUsed := 3\<rparr>))"
    by (simp add: ColorAllObjects_def GenerateColors_4 ColorObject_def length_palette
          default_component_def)
  from recolor_passes_stable[OF run] show ?thesis
    using run by simp
qed

end
